theory Spec2Isabelle
  imports Complex_Main "HOL-Library.List_Lexorder"
begin

section \<open>Values held in a table\<close>

text \<open>
  A Python \<^verbatim>\<open>str\<close> is a sequence of Unicode code points, so it is a list of naturals:
  slicing (\<^verbatim>\<open>s[:3]\<close>) and comparison count code points, not bytes.
\<close>

type_synonym pystr = "nat list"

definition ascii :: "string \<Rightarrow> pystr" where
  "ascii s = map of_char s"

text \<open>
  A cell of a DataFrame as a Python object: the missing value (float NaN, what an empty
  spreadsheet cell is read as), an \<^verbatim>\<open>int\<close>, a finite \<^verbatim>\<open>float\<close> (the rational it
  denotes; rounding is not modelled), or a \<^verbatim>\<open>str\<close>.
\<close>

datatype cell = NaN | IntV int | FloatV rat | StrV pystr

datatype py_exception =
    FileReadError | ValueError | InvalidIndexError | KeyError | AttributeError | TypeError

text \<open>A number as the numeric parser returns it: a Python \<^verbatim>\<open>int\<close> or a \<^verbatim>\<open>float\<close>.\<close>

datatype number = PyInt int | PyFloat rat

text \<open>
  The services of the spreadsheet codec and of pandas that the script only calls:
  the text Python gives a float, the numeric parser of pandas (behind the reader's
  type inference and \<^verbatim>\<open>pd.to_numeric\<close>), the labels the reader derives from a header
  row, and what \<^verbatim>\<open>.astype(str)\<close> does to a missing value: pandas 3 keeps it missing,
  pandas before 3 turns it into the text \<^verbatim>\<open>nan\<close>, and the script pins no version.
  They are parameters of the model.
\<close>

record services =
  float_repr :: "rat \<Rightarrow> pystr"
  parse_numeric :: "pystr \<Rightarrow> number option"
  header_names :: "cell list \<Rightarrow> pystr list"
  keeps_missing :: bool

text \<open>
  A DataFrame: the length of its index and its columns in order, each a label with its
  values. Labels may repeat (pandas allows it).
\<close>

record dataframe =
  nrows :: nat
  columns :: "(pystr \<times> cell list) list"

definition labels :: "dataframe \<Rightarrow> pystr list" where
  "labels df = map fst (columns df)"

definition wf_frame :: "dataframe \<Rightarrow> bool" where
  "wf_frame df = list_all (\<lambda>c. length (snd c) = nrows df) (columns df)"

definition empty_df :: "dataframe \<Rightarrow> bool" where
  "empty_df df = (nrows df = 0 \<or> columns df = [])"

section \<open>Column names (lines 46-66)\<close>

definition ORIGINAL_PERIODOS :: pystr where
  "ORIGINAL_PERIODOS =
     [928, 949, 961, 943, 959, 948, 959, 962, 32, 948, 942, 955, 969, 963, 951, 962]"

definition ORIGINAL_TMIMA :: pystr where
  "ORIGINAL_TMIMA = [932, 956, 942, 956, 945, 32, 932, 940, 958, 951, 962]"

definition ORIGINAL_MITROO :: pystr where
  "ORIGINAL_MITROO =
     [913, 961, 953, 952, 956, 972, 962, 32, 924, 951, 964, 961, 974, 959, 965]"

definition ORIGINAL_GRADE :: pystr where
  "ORIGINAL_GRADE = [914, 945, 952, 956, 959, 955, 959, 947, 943, 945]"

definition PERIODOS_COLUMN :: pystr where
  "PERIODOS_COLUMN = [928, 949, 961, 943, 959, 948, 959, 962]"

definition TMIMA_COLUMN :: pystr where
  "TMIMA_COLUMN = [924, 940, 952, 951, 956, 945]"

definition MITROO_COLUMN :: pystr where
  "MITROO_COLUMN = [904, 964, 959, 962, 32, 917, 947, 947, 961, 945, 966, 942, 962]"

definition GRADE_COLUMN :: pystr where
  "GRADE_COLUMN = [914, 945, 952, 956, 959, 955, 959, 947, 943, 945]"

definition FIXED_COLUMNS :: "pystr list" where
  "FIXED_COLUMNS = [PERIODOS_COLUMN, TMIMA_COLUMN, MITROO_COLUMN, GRADE_COLUMN]"

definition RENAME_DICT :: "(pystr \<times> pystr) list" where
  "RENAME_DICT =
     [(ORIGINAL_PERIODOS, PERIODOS_COLUMN),
      (ORIGINAL_TMIMA, TMIMA_COLUMN),
      (ORIGINAL_MITROO, MITROO_COLUMN)]"

definition required_original_cols :: "pystr list" where
  "required_original_cols =
     [ORIGINAL_PERIODOS, ORIGINAL_TMIMA, ORIGINAL_MITROO, ORIGINAL_GRADE]"

section \<open>Reading one file (line 113)\<close>

fun is_str :: "cell \<Rightarrow> bool" where
  "is_str (StrV s) = True"
| "is_str c = False"

fun is_inexact :: "cell \<Rightarrow> bool" where
  "is_inexact NaN = True"
| "is_inexact (FloatV r) = True"
| "is_inexact c = False"

fun to_float :: "cell \<Rightarrow> cell" where
  "to_float (IntV i) = FloatV (of_int i)"
| "to_float c = c"

text \<open>
  The common dtype of a column: with a string it is an object column and every cell stays
  as it is; without strings but with a float or a missing value it is float64 and the
  integers become floats; otherwise it is int64.
\<close>

definition upcast :: "cell list \<Rightarrow> cell list" where
  "upcast vs =
     (if list_ex is_str vs then vs
      else if list_ex is_inexact vs then map to_float vs
      else vs)"

text \<open>
  The numeric conversion of one cell: numbers stay, a string is parsed, and what does
  not parse becomes the missing value (\<^verbatim>\<open>errors='coerce'\<close>).
\<close>

fun to_numeric_cell :: "services \<Rightarrow> cell \<Rightarrow> cell" where
  "to_numeric_cell L (StrV s) =
     (case parse_numeric L s of
        None \<Rightarrow> NaN
      | Some (PyInt i) \<Rightarrow> IntV i
      | Some (PyFloat r) \<Rightarrow> FloatV r)"
| "to_numeric_cell L c = c"

text \<open>
  The reader's type inference on one column: when every text of the column parses as a
  number the whole column is converted, otherwise it stays an object column with its
  cells as they are.
\<close>

definition convertible :: "services \<Rightarrow> cell \<Rightarrow> bool" where
  "convertible L c = (case c of StrV s \<Rightarrow> parse_numeric L s \<noteq> None | _ \<Rightarrow> True)"

definition infer_column :: "services \<Rightarrow> cell list \<Rightarrow> cell list" where
  "infer_column L vs =
     (if list_all (convertible L) vs then upcast (map (to_numeric_cell L) vs) else vs)"

text \<open>
  An uploaded file either cannot be parsed or holds the grid of its first sheet, top row
  first, as the codec delivers it (trailing blank rows removed; the cells a row lacks
  at its end are empty).
\<close>

datatype upload = Unreadable | Sheet "cell list list"

definition cell_at :: "cell list \<Rightarrow> nat \<Rightarrow> cell" where
  "cell_at row j = (if j < length row then row ! j else NaN)"

text \<open>
  \<^verbatim>\<open>pd.read_excel(f, header=0, skiprows=1)\<close>: the first grid row is skipped, the next one
  is the header, the rest are the data rows, and the type of every column is inferred.
  A grid with nothing left after the skip gives the DataFrame with no columns and no
  rows.
\<close>

definition read_excel :: "services \<Rightarrow> upload \<Rightarrow> py_exception + dataframe" where
  "read_excel L f =
     (case f of
        Unreadable \<Rightarrow> Inl FileReadError
      | Sheet grid \<Rightarrow>
          (case drop 1 grid of
             [] \<Rightarrow> Inr \<lparr>nrows = 0, columns = []\<rparr>
           | hdr # body \<Rightarrow>
               Inr \<lparr>nrows = length body,
                    columns = map (\<lambda>j. (header_names L hdr ! j,
                                        infer_column L (map (\<lambda>row. cell_at row j) body)))
                                  [0..<length (header_names L hdr)]\<rparr>))"

section \<open>The loop over the uploaded files (lines 96-132)\<close>

datatype message =
    WarnMissingOriginal pystr
  | WarnNoData pystr
  | ErrFile pystr py_exception
  | SuccessMerged
  | SuccessRenamed
  | ErrMissingColumns "pystr list"
  | SuccessProcessed
  | WarnNoDataExtracted
  | ErrStopped
  | ErrUnexpected py_exception

record ingest =
  dataframes :: "dataframe list"
  error_occurred :: bool
  messages :: "message list"

definition has_required :: "dataframe \<Rightarrow> bool" where
  "has_required df = list_all (\<lambda>col. col \<in> set (labels df)) required_original_cols"

definition read_one :: "services \<Rightarrow> ingest \<Rightarrow> pystr \<times> upload \<Rightarrow> ingest" where
  "read_one L g uploaded_file =
     (case read_excel L (snd uploaded_file) of
        Inl file_error \<Rightarrow>
          g\<lparr>error_occurred := True,
            messages := messages g @ [ErrFile (fst uploaded_file) file_error]\<rparr>
      | Inr df \<Rightarrow>
          if \<not> has_required df
          then g\<lparr>messages := messages g @ [WarnMissingOriginal (fst uploaded_file)]\<rparr>
          else if \<not> empty_df df
          then g\<lparr>dataframes := dataframes g @ [df]\<rparr>
          else g\<lparr>messages := messages g @ [WarnNoData (fst uploaded_file)]\<rparr>)"

definition read_all :: "services \<Rightarrow> (pystr \<times> upload) list \<Rightarrow> ingest" where
  "read_all L uploaded_files =
     foldl (read_one L) \<lparr>dataframes = [], error_occurred = False, messages = []\<rparr> uploaded_files"

text \<open>
  What the loop is expected to leave behind, file by file: the table of a file that is
  read, has the required columns and is not empty; and the message of a file that is
  not accepted.
\<close>

definition accepted :: "services \<Rightarrow> pystr \<times> upload \<Rightarrow> dataframe option" where
  "accepted L uploaded_file =
     (case read_excel L (snd uploaded_file) of
        Inl e \<Rightarrow> None
      | Inr df \<Rightarrow> if has_required df \<and> \<not> empty_df df then Some df else None)"

definition accepted_frames :: "services \<Rightarrow> (pystr \<times> upload) list \<Rightarrow> dataframe list" where
  "accepted_frames L uploaded_files = List.map_filter (accepted L) uploaded_files"

definition file_messages :: "services \<Rightarrow> pystr \<times> upload \<Rightarrow> message list" where
  "file_messages L uploaded_file =
     (case read_excel L (snd uploaded_file) of
        Inl e \<Rightarrow> [ErrFile (fst uploaded_file) e]
      | Inr df \<Rightarrow>
          if \<not> has_required df then [WarnMissingOriginal (fst uploaded_file)]
          else if empty_df df then [WarnNoData (fst uploaded_file)]
          else [])"

text \<open>
  The rows of a sheet below its first row: the records it would have if the first row
  were the header.
\<close>

definition data_records :: "upload \<Rightarrow> nat" where
  "data_records f = (case f of Unreadable \<Rightarrow> 0 | Sheet grid \<Rightarrow> length grid - 1)"

section \<open>Merging (line 137)\<close>

definition column_or_nan :: "pystr \<Rightarrow> dataframe \<Rightarrow> cell list" where
  "column_or_nan l df =
     (case map_of (columns df) l of
        Some vs \<Rightarrow> vs
      | None \<Rightarrow> replicate (nrows df) NaN)"

definition union_labels :: "pystr list \<Rightarrow> pystr list \<Rightarrow> pystr list" where
  "union_labels seen ls = seen @ filter (\<lambda>l. l \<notin> set seen) ls"

text \<open>
  \<^verbatim>\<open>pd.concat(dataframes, ignore_index=True)\<close>: the columns are the union of the frames'
  labels in order of first appearance, each column the frames' values one frame after
  the other, missing where a frame has no such column. The reader names repeated header
  cells apart, so a frame it returns has distinct labels; frames whose labels repeat
  cannot be realigned (InvalidIndexError).
\<close>

definition pd_concat :: "dataframe list \<Rightarrow> py_exception + dataframe" where
  "pd_concat dfs =
     (if dfs = [] then Inl ValueError
      else if \<not> list_all (\<lambda>df. distinct (labels df)) dfs then Inl InvalidIndexError
      else Inr \<lparr>nrows = sum_list (map nrows dfs),
                columns = map (\<lambda>l. (l, upcast (concat (map (column_or_nan l) dfs))))
                              (foldl union_labels [] (map labels dfs))\<rparr>)"

section \<open>Renaming, selection and the two field transforms (lines 143-164)\<close>

definition rename_label :: "pystr \<Rightarrow> pystr" where
  "rename_label l = (case map_of RENAME_DICT l of Some n \<Rightarrow> n | None \<Rightarrow> l)"

definition rename_columns :: "dataframe \<Rightarrow> dataframe" where
  "rename_columns df = df\<lparr>columns := map (\<lambda>c. (rename_label (fst c), snd c)) (columns df)\<rparr>"

text \<open>
  \<^verbatim>\<open>df[keys]\<close>: for every key in turn, all the columns carrying that label.
\<close>

definition select_columns :: "pystr list \<Rightarrow> dataframe \<Rightarrow> py_exception + dataframe" where
  "select_columns ks df =
     (if \<not> list_all (\<lambda>k. k \<in> set (labels df)) ks then Inl KeyError
      else Inr (df\<lparr>columns := concat (map (\<lambda>k. filter (\<lambda>c. fst c = k) (columns df)) ks)\<rparr>))"

definition occurrences :: "pystr \<Rightarrow> dataframe \<Rightarrow> nat" where
  "occurrences l df = length (filter (\<lambda>c. fst c = l) (columns df))"

definition map_column :: "pystr \<Rightarrow> (cell list \<Rightarrow> cell list) \<Rightarrow> dataframe \<Rightarrow> dataframe" where
  "map_column l f df =
     df\<lparr>columns := map (\<lambda>c. if fst c = l then (fst c, f (snd c)) else c) (columns df)\<rparr>"

fun digits :: "nat \<Rightarrow> pystr" where
  "digits n = (if n < 10 then [48 + n] else digits (n div 10) @ [48 + n mod 10])"

declare digits.simps [simp del]

definition dec_str :: "int \<Rightarrow> pystr" where
  "dec_str i = (if i < 0 then 45 # digits (nat (- i)) else digits (nat i))"

text \<open>Python's \<^verbatim>\<open>str(x)\<close> of a cell (\<^verbatim>\<open>str(float('nan'))\<close> is \<^verbatim>\<open>nan\<close>).\<close>

fun py_str :: "services \<Rightarrow> cell \<Rightarrow> pystr" where
  "py_str L NaN = [110, 97, 110]"
| "py_str L (IntV i) = dec_str i"
| "py_str L (FloatV r) = float_repr L r"
| "py_str L (StrV s) = s"

text \<open>
  \<^verbatim>\<open>.astype(str)\<close> on one cell: the text of the value; a missing value stays missing
  where the library keeps it, and otherwise becomes its text like any other value.
\<close>

definition astype_str :: "services \<Rightarrow> cell \<Rightarrow> cell" where
  "astype_str L c = (if c = NaN \<and> keeps_missing L then NaN else StrV (py_str L c))"

text \<open>\<^verbatim>\<open>.str[:3]\<close> on one cell: the first three characters; missing stays missing.\<close>

fun str_slice3 :: "cell \<Rightarrow> cell" where
  "str_slice3 (StrV s) = StrV (take 3 s)"
| "str_slice3 c = NaN"

text \<open>Line 161 on one cell.\<close>

definition prefix3 :: "services \<Rightarrow> cell \<Rightarrow> cell" where
  "prefix3 L c = str_slice3 (astype_str L c)"

text \<open>\<^verbatim>\<open>pd.to_numeric(..., errors='coerce')\<close> on a column, brought to its common dtype.\<close>

definition to_numeric :: "services \<Rightarrow> cell list \<Rightarrow> cell list" where
  "to_numeric L vs = upcast (map (to_numeric_cell L) vs)"

text \<open>
  Lines 158-164. With a repeated label \<^verbatim>\<open>processed_df[label]\<close> is a DataFrame, which has
  no \<^verbatim>\<open>.str\<close> (AttributeError) and which \<^verbatim>\<open>pd.to_numeric\<close> refuses (TypeError).
\<close>

definition project_transform :: "services \<Rightarrow> dataframe \<Rightarrow> py_exception + dataframe" where
  "project_transform L combined_df_temp =
     (case select_columns FIXED_COLUMNS combined_df_temp of
        Inl e \<Rightarrow> Inl e
      | Inr processed \<Rightarrow>
          if occurrences MITROO_COLUMN processed \<noteq> 1 then Inl AttributeError
          else if occurrences GRADE_COLUMN processed \<noteq> 1 then Inl TypeError
          else Inr (map_column GRADE_COLUMN (to_numeric L)
                     (map_column MITROO_COLUMN (map (prefix3 L)) processed)))"

section \<open>Session state and the processing block (lines 90-192)\<close>

text \<open>
  DataFrames are objects: the session state holds references into a store, so that the
  in-place renaming of line 143 is seen through every reference to the merged table.
\<close>

record session =
  store :: "dataframe list"
  combined_df :: "nat option"
  processed_df :: "nat option"
  shown :: "message list"

definition say :: "message \<Rightarrow> session \<Rightarrow> session" where
  "say m s = s\<lparr>shown := shown s @ [m]\<rparr>"

text \<open>The handler of the outer \<^verbatim>\<open>try\<close> (lines 184-192).\<close>

definition unexpected :: "py_exception \<Rightarrow> session \<Rightarrow> session" where
  "unexpected e s = (say (ErrUnexpected e) s)\<lparr>combined_df := None, processed_df := None\<rparr>"

definition missing_cols :: "dataframe \<Rightarrow> pystr list" where
  "missing_cols combined_df_temp =
     filter (\<lambda>col. col \<notin> set (labels combined_df_temp)) FIXED_COLUMNS"

text \<open>Lines 134-178, with the handler: what happens once the loop has ended.\<close>

definition combine_and_process :: "services \<Rightarrow> ingest \<Rightarrow> session \<Rightarrow> session" where
  "combine_and_process L g s =
     (if dataframes g \<noteq> [] \<and> \<not> error_occurred g then
        (case pd_concat (dataframes g) of
           Inl e \<Rightarrow> unexpected e s
         | Inr merged \<Rightarrow>
             let r = length (store s);
                 s1 = say SuccessMerged (s\<lparr>store := store s @ [merged], combined_df := Some r\<rparr>);
                 s2 = say SuccessRenamed (s1\<lparr>store := (store s1)[r := rename_columns (store s1 ! r)]\<rparr>);
                 combined_df_temp = store s2 ! r
             in if missing_cols combined_df_temp \<noteq> []
                then (say (ErrMissingColumns (missing_cols combined_df_temp)) s2)
                       \<lparr>processed_df := None\<rparr>
                else (case project_transform L combined_df_temp of
                        Inl e \<Rightarrow> unexpected e s2
                      | Inr processed \<Rightarrow>
                          say SuccessProcessed
                            (s2\<lparr>store := store s2 @ [processed],
                                processed_df := Some (length (store s2))\<rparr>)))
      else if dataframes g = [] \<and> \<not> error_occurred g then
        (say WarnNoDataExtracted s)\<lparr>combined_df := None, processed_df := None\<rparr>
      else (say ErrStopped s)\<lparr>processed_df := None\<rparr>)"

definition process_uploads :: "services \<Rightarrow> (pystr \<times> upload) list \<Rightarrow> session \<Rightarrow> session" where
  "process_uploads L uploaded_files s =
     (if uploaded_files \<noteq> [] \<and> processed_df s = None then
        let g = read_all L uploaded_files;
            s0 = s\<lparr>combined_df := None, processed_df := None,
                   shown := shown s @ messages g\<rparr>
        in combine_and_process L g s0
      else s)"

section \<open>Selection and aggregation (lines 197-313)\<close>

text \<open>
  \<^verbatim>\<open>df[label]\<close> as a Series: the label has to be there (KeyError) and to name one column;
  with a repeated label the result is a DataFrame, on which \<^verbatim>\<open>.unique()\<close>, the grouper
  and the column aggregations fail.
\<close>

definition column :: "pystr \<Rightarrow> dataframe \<Rightarrow> py_exception + cell list" where
  "column l df =
     (case filter (\<lambda>c. fst c = l) (columns df) of
        [] \<Rightarrow> Inl KeyError
      | [c] \<Rightarrow> Inr (snd c)
      | c # c' # cs \<Rightarrow> Inl AttributeError)"

text \<open>
  Equality of cells as Python and pandas' hash tables see it: \<^verbatim>\<open>1 == 1.0\<close>, and the
  missing value is one key.
\<close>

fun num_of :: "cell \<Rightarrow> rat" where
  "num_of (IntV i) = of_int i"
| "num_of (FloatV r) = r"
| "num_of c = 0"

fun rank :: "cell \<Rightarrow> nat" where
  "rank (IntV i) = 0"
| "rank (FloatV r) = 0"
| "rank (StrV s) = 1"
| "rank NaN = 2"

definition py_eq :: "cell \<Rightarrow> cell \<Rightarrow> bool" where
  "py_eq a b =
     (rank a = rank b \<and> (if rank a = 0 then num_of a = num_of b else a = b))"

text \<open>\<^verbatim>\<open>Series.unique()\<close>: the distinct values in order of first appearance.\<close>

fun uniques :: "cell list \<Rightarrow> cell list" where
  "uniques [] = []"
| "uniques (x # xs) = x # uniques (filter (\<lambda>y. \<not> py_eq y x) xs)"

text \<open>
  The order of sorted keys: numbers by value, then strings by code points, then the
  missing value. (For numbers together with a missing value Python's \<^verbatim>\<open>sorted\<close> gives an
  order that depends on its algorithm; only the set of options is used afterwards.)
\<close>

definition cell_le :: "cell \<Rightarrow> cell \<Rightarrow> bool" where
  "cell_le a b =
     (rank a < rank b \<or>
      (rank a = rank b \<and>
       (case (a, b) of
          (StrV s, StrV t) \<Rightarrow> s \<le> t
        | _ \<Rightarrow> num_of a \<le> num_of b)))"

fun insert_key :: "cell \<Rightarrow> cell list \<Rightarrow> cell list" where
  "insert_key x [] = [x]"
| "insert_key x (y # ys) = (if cell_le x y then x # y # ys else y # insert_key x ys)"

definition sort_keys :: "cell list \<Rightarrow> cell list" where
  "sort_keys xs = foldr insert_key xs []"

text \<open>Python's \<^verbatim>\<open>sorted\<close> compares with \<^verbatim>\<open><\<close>, which a string and a number do not have.\<close>

definition py_sorted :: "cell list \<Rightarrow> py_exception + cell list" where
  "py_sorted xs =
     (if list_ex is_str xs \<and> list_ex (\<lambda>c. \<not> is_str c) xs then Inl TypeError
      else Inr (sort_keys xs))"

text \<open>\<^verbatim>\<open>df[mask]\<close> with a boolean mask over the rows.\<close>

definition boolean_index :: "bool list \<Rightarrow> dataframe \<Rightarrow> dataframe" where
  "boolean_index keep df =
     \<lparr>nrows = length (filter (\<lambda>b. b) keep),
      columns = map (\<lambda>c. (fst c, map fst (filter snd (zip (snd c) keep)))) (columns df)\<rparr>"

definition isin_filter :: "pystr \<Rightarrow> cell list \<Rightarrow> dataframe \<Rightarrow> py_exception + dataframe" where
  "isin_filter l selected df =
     (case column l df of
        Inl e \<Rightarrow> Inl e
      | Inr vs \<Rightarrow> Inr (boolean_index (map (\<lambda>v. list_ex (py_eq v) selected) vs) df))"

record summary_row =
  key :: cell
  enrolled :: nat
  participated :: nat
  passed :: nat

definition notna :: "cell \<Rightarrow> bool" where
  "notna c = (c \<noteq> NaN)"

text \<open>\<^verbatim>\<open>x >= 5\<close> on a numeric cell; a comparison with the missing value is false.\<close>

fun ge5 :: "cell \<Rightarrow> bool" where
  "ge5 (IntV i) = (5 \<le> i)"
| "ge5 (FloatV r) = (5 \<le> r)"
| "ge5 c = False"

text \<open>The grades of the rows whose key is \<open>k\<close>.\<close>

definition members :: "cell list \<Rightarrow> cell list \<Rightarrow> cell \<Rightarrow> cell list" where
  "members ks gs k = map snd (filter (\<lambda>p. py_eq (fst p) k) (zip ks gs))"

text \<open>
  \<^verbatim>\<open>df.groupby(K).agg(**aggregation_logic).reset_index()\<close> (lines 235-241): the groups are
  the distinct keys that are not missing, sorted; \<^verbatim>\<open>size\<close> counts the rows of a group,
  \<^verbatim>\<open>count\<close> its grades that are not missing, the lambda those that are at least 5.
  Comparing a string grade with 5 raises TypeError.
\<close>

definition aggregate :: "pystr \<Rightarrow> dataframe \<Rightarrow> py_exception + summary_row list" where
  "aggregate K df =
     (case column K df of
        Inl e \<Rightarrow> Inl e
      | Inr ks \<Rightarrow>
          (case column TMIMA_COLUMN df of
             Inl e \<Rightarrow> Inl e
           | Inr ts \<Rightarrow>
               (case column GRADE_COLUMN df of
                  Inl e \<Rightarrow> Inl e
                | Inr gs \<Rightarrow>
                    let groups = sort_keys (uniques (filter notna ks))
                    in if list_ex (\<lambda>k. list_ex is_str (members ks gs k)) groups
                       then Inl TypeError
                       else Inr (map (\<lambda>k. \<lparr>key = k,
                                           enrolled = length (members ks gs k),
                                           participated = length (filter notna (members ks gs k)),
                                           passed = length (filter ge5 (members ks gs k))\<rparr>)
                                     groups))))"

datatype view = AwaitingSelection | NoRows | Summary "summary_row list"

definition periodos_options :: "dataframe \<Rightarrow> py_exception + cell list" where
  "periodos_options processed =
     (case column PERIODOS_COLUMN processed of
        Inl e \<Rightarrow> Inl e
      | Inr vs \<Rightarrow> py_sorted (uniques vs))"

text \<open>
  Step 1 (lines 203-253); \<open>checked\<close> is the state of the checkbox of each option.
\<close>

definition level1 :: "(cell \<Rightarrow> bool) \<Rightarrow> dataframe \<Rightarrow> py_exception + view" where
  "level1 checked processed =
     (case periodos_options processed of
        Inl e \<Rightarrow> Inl e
      | Inr opts \<Rightarrow>
          let selected_periodoi = filter checked opts
          in if selected_periodoi = [] then Inr AwaitingSelection
             else (case isin_filter PERIODOS_COLUMN selected_periodoi processed of
                     Inl e \<Rightarrow> Inl e
                   | Inr df_filtered_by_periodos \<Rightarrow>
                       if empty_df df_filtered_by_periodos then Inr NoRows
                       else (case aggregate TMIMA_COLUMN df_filtered_by_periodos of
                               Inl e \<Rightarrow> Inl e
                             | Inr tmima_agg \<Rightarrow> Inr (Summary tmima_agg))))"

text \<open>
  Step 2 (lines 256-308), on the table already filtered by the selected periods. The
  message of lines 281-284 joins the selections with \<^verbatim>\<open>", ".join\<close>, which raises
  TypeError on a value that is not text.
\<close>

definition level2 ::
  "cell list \<Rightarrow> (cell \<Rightarrow> bool) \<Rightarrow> dataframe \<Rightarrow> py_exception + view" where
  "level2 selected_periodoi checked df_filtered_by_periodos =
     (case column TMIMA_COLUMN df_filtered_by_periodos of
        Inl e \<Rightarrow> Inl e
      | Inr ts \<Rightarrow>
          (case py_sorted (uniques ts) of
             Inl e \<Rightarrow> Inl e
           | Inr tmima_options \<Rightarrow>
               let selected_tmimata = filter checked tmima_options
               in if selected_tmimata = [] then Inr AwaitingSelection
                  else if list_ex (\<lambda>c. \<not> is_str c) (selected_periodoi @ selected_tmimata)
                  then Inl TypeError
                  else (case isin_filter TMIMA_COLUMN selected_tmimata df_filtered_by_periodos of
                          Inl e \<Rightarrow> Inl e
                        | Inr df_filtered_by_both \<Rightarrow>
                            if empty_df df_filtered_by_both then Inr NoRows
                            else (case aggregate MITROO_COLUMN df_filtered_by_both of
                                    Inl e \<Rightarrow> Inl e
                                  | Inr mitroo_agg_filtered \<Rightarrow>
                                      Inr (Summary mitroo_agg_filtered)))))"

section \<open>A concrete codec for worked examples\<close>

text \<open>
  Stand-ins for the services, used in the worked examples only and exact on what those
  hold: header cells that are distinct texts (each its own label), texts that are
  either strings of decimal digits (parsed to that integer) or no numbers at all, and
  floats with an integral value (printed with \<^verbatim>\<open>.0\<close>). Missing values are kept by
  \<^verbatim>\<open>.astype(str)\<close>, as pandas 3 does.
\<close>

definition header_text :: "cell \<Rightarrow> pystr" where
  "header_text c = (case c of StrV s \<Rightarrow> s | _ \<Rightarrow> [])"

definition parse_digits :: "pystr \<Rightarrow> number option" where
  "parse_digits s =
     (if s \<noteq> [] \<and> list_all (\<lambda>c. 48 \<le> c \<and> c \<le> 57) s
      then Some (PyInt (int (foldl (\<lambda>a c. 10 * a + (c - 48)) 0 s)))
      else None)"

definition example_services :: services where
  "example_services =
     \<lparr>float_repr = (\<lambda>r. dec_str \<lfloor>r\<rfloor> @ [46, 48]),
      parse_numeric = parse_digits,
      header_names = map header_text,
      keeps_missing = True\<rparr>"

text \<open>Worked inputs: each sheet has a title row, the header row and its data rows.\<close>

definition title_row :: "cell list" where
  "title_row = [StrV (ascii ''export'')]"

definition header_row :: "cell list" where
  "header_row = map StrV required_original_cols"

definition file_a :: upload where
  "file_a =
     Sheet [title_row, header_row,
            [StrV (ascii ''2023-24''), StrV (ascii ''Algebra''), IntV 2023001234, IntV 7],
            [StrV (ascii ''2023-24''), StrV (ascii ''Algebra''), IntV 2019004321, StrV [913]]]"

definition file_b :: upload where
  "file_b =
     Sheet [title_row, header_row,
            [StrV (ascii ''2024-25''), StrV (ascii ''Logic''), IntV 2021000111, IntV 5],
            [StrV (ascii ''2024-25''), StrV (ascii ''Algebra''), IntV 2020000222, IntV 3]]"

definition file_no_grade :: upload where
  "file_no_grade =
     Sheet [title_row,
            [StrV ORIGINAL_PERIODOS, StrV ORIGINAL_TMIMA, StrV ORIGINAL_MITROO],
            [StrV (ascii ''2024-25''), StrV (ascii ''Logic''), IntV 2021000111]]"

definition file_extra_period :: upload where
  "file_extra_period =
     Sheet [title_row, header_row @ [StrV PERIODOS_COLUMN],
            [StrV (ascii ''2023-24''), StrV (ascii ''Algebra''), IntV 2023001234, IntV 7,
             StrV (ascii ''spring'')]]"

definition new_session :: session where
  "new_session = \<lparr>store = [], combined_df = None, processed_df = None, shown = []\<rparr>"

definition example_table :: dataframe where
  "example_table =
     \<lparr>nrows = 3,
      columns =
        [(PERIODOS_COLUMN, [StrV (ascii ''2023-24''), StrV (ascii ''2023-24''), StrV (ascii ''2024-25'')]),
         (TMIMA_COLUMN, [StrV (ascii ''Algebra''), StrV (ascii ''Algebra''), StrV (ascii ''Logic'')]),
         (MITROO_COLUMN, [StrV (ascii ''202''), StrV (ascii ''201''), StrV (ascii ''202'')]),
         (GRADE_COLUMN, [FloatV 7, NaN, FloatV 5])]\<rparr>"

text \<open>The tables read from the worked inputs, and what the run makes of the first.\<close>

definition frame_a :: dataframe where
  "frame_a =
     \<lparr>nrows = 2,
      columns =
        [(ORIGINAL_PERIODOS, [StrV (ascii ''2023-24''), StrV (ascii ''2023-24'')]),
         (ORIGINAL_TMIMA, [StrV (ascii ''Algebra''), StrV (ascii ''Algebra'')]),
         (ORIGINAL_MITROO, [IntV 2023001234, IntV 2019004321]),
         (ORIGINAL_GRADE, [IntV 7, StrV [913]])]\<rparr>"

definition frame_b :: dataframe where
  "frame_b =
     \<lparr>nrows = 2,
      columns =
        [(ORIGINAL_PERIODOS, [StrV (ascii ''2024-25''), StrV (ascii ''2024-25'')]),
         (ORIGINAL_TMIMA, [StrV (ascii ''Logic''), StrV (ascii ''Algebra'')]),
         (ORIGINAL_MITROO, [IntV 2021000111, IntV 2020000222]),
         (ORIGINAL_GRADE, [IntV 5, IntV 3])]\<rparr>"

definition frame_no_grade :: dataframe where
  "frame_no_grade =
     \<lparr>nrows = 1,
      columns =
        [(ORIGINAL_PERIODOS, [StrV (ascii ''2024-25'')]),
         (ORIGINAL_TMIMA, [StrV (ascii ''Logic'')]),
         (ORIGINAL_MITROO, [IntV 2021000111])]\<rparr>"

definition renamed_a :: dataframe where
  "renamed_a =
     \<lparr>nrows = 2,
      columns =
        [(PERIODOS_COLUMN, [StrV (ascii ''2023-24''), StrV (ascii ''2023-24'')]),
         (TMIMA_COLUMN, [StrV (ascii ''Algebra''), StrV (ascii ''Algebra'')]),
         (MITROO_COLUMN, [IntV 2023001234, IntV 2019004321]),
         (GRADE_COLUMN, [IntV 7, StrV [913]])]\<rparr>"

definition processed_a :: dataframe where
  "processed_a =
     \<lparr>nrows = 2,
      columns =
        [(PERIODOS_COLUMN, [StrV (ascii ''2023-24''), StrV (ascii ''2023-24'')]),
         (TMIMA_COLUMN, [StrV (ascii ''Algebra''), StrV (ascii ''Algebra'')]),
         (MITROO_COLUMN, [StrV (ascii ''202''), StrV (ascii ''201'')]),
         (GRADE_COLUMN, [FloatV 7, NaN])]\<rparr>"

definition merged_ab :: dataframe where
  "merged_ab =
     \<lparr>nrows = 4,
      columns =
        [(ORIGINAL_PERIODOS,
          [StrV (ascii ''2023-24''), StrV (ascii ''2023-24''), StrV (ascii ''2024-25''),
           StrV (ascii ''2024-25'')]),
         (ORIGINAL_TMIMA,
          [StrV (ascii ''Algebra''), StrV (ascii ''Algebra''), StrV (ascii ''Logic''),
           StrV (ascii ''Algebra'')]),
         (ORIGINAL_MITROO,
          [IntV 2023001234, IntV 2019004321,
           IntV 2021000111, IntV 2020000222]),
         (ORIGINAL_GRADE, [IntV 7, StrV [913], IntV 5, IntV 3])]\<rparr>"

text \<open>The tables of the sheet that has a column already named as a target column.\<close>

definition frame_extra_period :: dataframe where
  "frame_extra_period =
     \<lparr>nrows = 1,
      columns =
        [(ORIGINAL_PERIODOS, [StrV (ascii ''2023-24'')]),
         (ORIGINAL_TMIMA, [StrV (ascii ''Algebra'')]),
         (ORIGINAL_MITROO, [IntV 2023001234]),
         (ORIGINAL_GRADE, [IntV 7]),
         (PERIODOS_COLUMN, [StrV (ascii ''spring'')])]\<rparr>"

definition renamed_extra_period :: dataframe where
  "renamed_extra_period =
     \<lparr>nrows = 1,
      columns =
        [(PERIODOS_COLUMN, [StrV (ascii ''2023-24'')]),
         (TMIMA_COLUMN, [StrV (ascii ''Algebra'')]),
         (MITROO_COLUMN, [IntV 2023001234]),
         (GRADE_COLUMN, [IntV 7]),
         (PERIODOS_COLUMN, [StrV (ascii ''spring'')])]\<rparr>"

definition processed_extra_period :: dataframe where
  "processed_extra_period =
     \<lparr>nrows = 1,
      columns =
        [(PERIODOS_COLUMN, [StrV (ascii ''2023-24'')]),
         (PERIODOS_COLUMN, [StrV (ascii ''spring'')]),
         (TMIMA_COLUMN, [StrV (ascii ''Algebra'')]),
         (MITROO_COLUMN, [StrV (ascii ''202'')]),
         (GRADE_COLUMN, [IntV 7])]\<rparr>"


section \<open>Facts about cells, keys and counting\<close>

lemma py_eq_refl: "py_eq a a"
  by (simp add: py_eq_def)

lemma py_eq_sym: "py_eq a b \<Longrightarrow> py_eq b a"
  by (cases a; cases b) (simp_all add: py_eq_def)

lemma py_eq_trans: "py_eq a b \<Longrightarrow> py_eq b c \<Longrightarrow> py_eq a c"
  by (cases a; cases b; cases c) (simp_all add: py_eq_def)

lemma ge5_notna: "ge5 c \<Longrightarrow> notna c"
  by (cases c) (simp_all add: notna_def)

lemma length_filter_ge5_le: "length (filter ge5 xs) \<le> length (filter notna xs)"
  by (induction xs) (auto dest: ge5_notna)

lemma is_str_to_float [simp]: "is_str (to_float c) = is_str c"
  by (cases c) simp_all

lemma notna_to_float [simp]: "notna (to_float c) = notna c"
  by (cases c) (simp_all add: notna_def)

lemma ge5_to_float [simp]: "ge5 (to_float c) = ge5 c"
  by (cases c) simp_all

lemma length_upcast [simp]: "length (upcast vs) = length vs"
  by (simp add: upcast_def)

lemma upcast_nth:
  "i < length vs \<Longrightarrow> upcast vs ! i = vs ! i \<or> upcast vs ! i = to_float (vs ! i)"
  by (simp add: upcast_def)

lemma notna_upcast_nth: "i < length vs \<Longrightarrow> notna (upcast vs ! i) = notna (vs ! i)"
  using upcast_nth[of i vs] by auto

lemma ge5_upcast_nth: "i < length vs \<Longrightarrow> ge5 (upcast vs ! i) = ge5 (vs ! i)"
  using upcast_nth[of i vs] by auto

lemma list_ex_is_str_upcast [simp]: "list_ex is_str (upcast vs) = list_ex is_str vs"
  by (simp add: upcast_def list_ex_iff)

lemma not_is_str_to_numeric_cell [simp]: "\<not> is_str (to_numeric_cell L c)"
  by (cases c) (simp_all split: option.splits number.splits)

lemma length_infer_column [simp]: "length (infer_column L vs) = length vs"
  by (simp add: infer_column_def)

lemma no_str_to_numeric: "\<not> list_ex is_str (to_numeric L origs)"
  unfolding to_numeric_def list_ex_is_str_upcast by (simp add: list_ex_iff)

lemma length_to_numeric [simp]: "length (to_numeric L origs) = length origs"
  by (simp add: to_numeric_def)

lemma ge5_numeric: "\<not> is_str c \<Longrightarrow> ge5 c = (c \<noteq> NaN \<and> 5 \<le> num_of c)"
  by (cases c) simp_all

lemma set_members_subset: "set (members ks gs k) \<subseteq> set gs"
  by (auto simp: members_def dest: set_zip_rightD)

lemma count_insert_key:
  "length (filter P (insert_key x ys)) = length (filter P (x # ys))"
  by (induction ys) auto

lemma count_sort_keys: "length (filter P (sort_keys xs)) = length (filter P xs)"
  by (induction xs) (simp_all add: sort_keys_def count_insert_key)

lemma set_insert_key [simp]: "set (insert_key x ys) = insert x (set ys)"
  by (induction ys) auto

lemma set_sort_keys [simp]: "set (sort_keys xs) = set xs"
  by (induction xs) (simp_all add: sort_keys_def)

lemma set_uniques_subset: "set (uniques xs) \<subseteq> set xs"
  by (induction xs rule: uniques.induct) auto

lemma count_uniques:
  "length (filter (py_eq k) (uniques xs)) = (if \<exists>y \<in> set xs. py_eq k y then 1 else 0)"
proof (induction xs rule: uniques.induct)
  case 1
  then show ?case by simp
next
  case (2 x xs)
  let ?ys = "filter (\<lambda>y. \<not> py_eq y x) xs"
  show ?case
  proof (cases "py_eq k x")
    case True
    have "\<not> (\<exists>y \<in> set ?ys. py_eq k y)"
    proof
      assume "\<exists>y \<in> set ?ys. py_eq k y"
      then obtain y where y: "y \<in> set xs" "\<not> py_eq y x" "py_eq k y" by auto
      from py_eq_trans[OF py_eq_sym[OF y(3)] True] y(2) show False by simp
    qed
    with "2.IH" have "length (filter (py_eq k) (uniques ?ys)) = 0" by simp
    with True show ?thesis by auto
  next
    case False
    have "(\<exists>y \<in> set ?ys. py_eq k y) = (\<exists>y \<in> set xs. py_eq k y)"
    proof
      assume "\<exists>y \<in> set ?ys. py_eq k y" then show "\<exists>y \<in> set xs. py_eq k y" by auto
    next
      assume "\<exists>y \<in> set xs. py_eq k y"
      then obtain y where y: "y \<in> set xs" "py_eq k y" by auto
      have "\<not> py_eq y x" using py_eq_trans[OF y(2)] False by blast
      with y show "\<exists>y \<in> set ?ys. py_eq k y" by auto
    qed
    with "2.IH" have "length (filter (py_eq k) (uniques ?ys)) = (if \<exists>y \<in> set xs. py_eq k y then 1 else 0)"
      by simp
    with False show ?thesis by auto
  qed
qed

lemma length_members:
  assumes "length ks = length gs"
  shows "length (filter Q (members ks gs k)) =
         card {i. i < length ks \<and> py_eq (ks ! i) k \<and> Q (gs ! i)}"
proof -
  have "filter Q (map snd (filter (\<lambda>p. py_eq (fst p) k) (zip ks gs))) =
        map snd (filter (\<lambda>p. py_eq (fst p) k \<and> Q (snd p)) (zip ks gs))"
    by (induction "zip ks gs" arbitrary: ks gs) (auto simp: filter_map comp_def)
  then have "length (filter Q (members ks gs k)) =
        length (filter (\<lambda>p. py_eq (fst p) k \<and> Q (snd p)) (zip ks gs))"
    by (simp add: members_def)
  also have "\<dots> = card {i. i < length (zip ks gs) \<and> (py_eq (fst (zip ks gs ! i)) k \<and> Q (snd (zip ks gs ! i)))}"
    by (rule length_filter_conv_card)
  also have "{i. i < length (zip ks gs) \<and> (py_eq (fst (zip ks gs ! i)) k \<and> Q (snd (zip ks gs ! i)))} =
             {i. i < length ks \<and> py_eq (ks ! i) k \<and> Q (gs ! i)}"
    using assms by auto
  finally show ?thesis .
qed

lemma length_members_all:
  assumes "length ks = length gs"
  shows "length (members ks gs k) = card {i. i < length ks \<and> py_eq (ks ! i) k}"
  using length_members[OF assms, of "\<lambda>_. True" k] by simp

lemma aggregate_rowD:
  assumes "aggregate K df = Inr rows" "r \<in> set rows"
  shows "\<exists>ks gs. column K df = Inr ks \<and> column GRADE_COLUMN df = Inr gs \<and>
           key r \<in> set (uniques (filter notna ks)) \<and>
           enrolled r = length (members ks gs (key r)) \<and>
           participated r = length (filter notna (members ks gs (key r))) \<and>
           passed r = length (filter ge5 (members ks gs (key r)))"
  using assms by (auto simp: aggregate_def Let_def split: sum.splits if_splits)

lemma aggregate_numeric:
  assumes K: "column K df = Inr ks" and T: "column TMIMA_COLUMN df = Inr ts"
    and G: "column GRADE_COLUMN df = Inr gs" and num: "\<not> list_ex is_str gs"
  shows "aggregate K df =
         Inr (map (\<lambda>k. \<lparr>key = k,
                         enrolled = length (members ks gs k),
                         participated = length (filter notna (members ks gs k)),
                         passed = length (filter ge5 (members ks gs k))\<rparr>)
                  (sort_keys (uniques (filter notna ks))))"
proof -
  have "\<not> list_ex (\<lambda>k. list_ex is_str (members ks gs k)) (sort_keys (uniques (filter notna ks)))"
    using num set_members_subset[of ks gs] by (auto simp: list_ex_iff)
  then show ?thesis by (simp add: aggregate_def K T G Let_def)
qed

lemmas column_names = PERIODOS_COLUMN_def TMIMA_COLUMN_def MITROO_COLUMN_def GRADE_COLUMN_def
  ORIGINAL_PERIODOS_def ORIGINAL_TMIMA_def ORIGINAL_MITROO_def ORIGINAL_GRADE_def

lemma example_table_columns:
  "column PERIODOS_COLUMN example_table =
     Inr [StrV (ascii ''2023-24''), StrV (ascii ''2023-24''), StrV (ascii ''2024-25'')]"
  "column TMIMA_COLUMN example_table =
     Inr [StrV (ascii ''Algebra''), StrV (ascii ''Algebra''), StrV (ascii ''Logic'')]"
  "column MITROO_COLUMN example_table =
     Inr [StrV (ascii ''202''), StrV (ascii ''201''), StrV (ascii ''202'')]"
  "column GRADE_COLUMN example_table = Inr [FloatV 7, NaN, FloatV 5]"
  by (simp_all add: example_table_def column_def column_names)

lemma example_table_aggregate:
  "aggregate TMIMA_COLUMN example_table =
     Inr [\<lparr>key = StrV (ascii ''Algebra''), enrolled = 2, participated = 1, passed = 1\<rparr>,
          \<lparr>key = StrV (ascii ''Logic''), enrolled = 1, participated = 1, passed = 1\<rparr>]"
  by (simp add: aggregate_def example_table_columns members_def py_eq_def
      sort_keys_def cell_le_def notna_def ascii_def Let_def)

text \<open>
  Claim C3. Every summary row that the aggregation produces, for any table and any
  grouping column, has Passed \<open>\<le>\<close> Participated \<open>\<le>\<close> Enrolled.
\<close>

theorem aggregate_passed_le_participated_le_enrolled:
  assumes "aggregate K df = Inr rows"
  shows "\<forall>r \<in> set rows. passed r \<le> participated r \<and> participated r \<le> enrolled r"
proof
  fix r assume "r \<in> set rows"
  from aggregate_rowD[OF assms this] obtain ks gs where
    "enrolled r = length (members ks gs (key r))"
    "participated r = length (filter notna (members ks gs (key r)))"
    "passed r = length (filter ge5 (members ks gs (key r)))" by blast
  then show "passed r \<le> participated r \<and> participated r \<le> enrolled r"
    by (simp add: length_filter_ge5_le)
qed

theorem aggregate_passed_le_participated_le_enrolled_witness:
  "aggregate TMIMA_COLUMN example_table =
     Inr [\<lparr>key = StrV (ascii ''Algebra''), enrolled = 2, participated = 1, passed = 1\<rparr>,
          \<lparr>key = StrV (ascii ''Logic''), enrolled = 1, participated = 1, passed = 1\<rparr>] \<and>
   list_all (\<lambda>r. passed r \<le> participated r \<and> participated r \<le> enrolled r)
     [\<lparr>key = StrV (ascii ''Algebra''), enrolled = 2, participated = 1, passed = 1\<rparr>,
      \<lparr>key = StrV (ascii ''Logic''), enrolled = 1, participated = 1, passed = 1\<rparr>]"
  using aggregate_passed_le_participated_le_enrolled [OF example_table_aggregate]
    example_table_aggregate by simp

lemma notna_to_numeric_nth:
  "i < length origs \<Longrightarrow> notna (to_numeric L origs ! i) = (to_numeric_cell L (origs ! i) \<noteq> NaN)"
  by (simp add: to_numeric_def notna_upcast_nth) (simp add: notna_def)

lemma ge5_to_numeric_nth:
  "i < length origs \<Longrightarrow>
   ge5 (to_numeric L origs ! i) =
     (to_numeric_cell L (origs ! i) \<noteq> NaN \<and> 5 \<le> num_of (to_numeric_cell L (origs ! i)))"
  by (simp add: to_numeric_def ge5_upcast_nth ge5_numeric)

text \<open>
  Claim C2. For a table whose grade column is the numeric coercion of the values
  \<open>origs\<close> (what line 164 stores), grouping by any column \<open>K\<close> gives a summary with
  exactly one row for every key value present (a missing key is no value and forms no
  group). In the row of a key, Enrolled is the number of rows of the table with that
  key, Participated the number of those whose grade is not null, and Passed the
  number of those whose grade is not null and at least 5. A grade that does not parse
  is coerced to null, so its row is counted in Enrolled only.
\<close>

theorem aggregate_counts:
  assumes K: "column K df = Inr ks"
    and T: "column TMIMA_COLUMN df = Inr ts"
    and G: "column GRADE_COLUMN df = Inr (to_numeric L origs)"
    and len: "length ks = length origs"
  shows "\<exists>rows. aggregate K df = Inr rows \<and>
     (\<forall>k \<in> set ks. k \<noteq> NaN \<longrightarrow> length (filter (\<lambda>r. py_eq k (key r)) rows) = 1) \<and>
     (\<forall>r \<in> set rows. key r \<noteq> NaN \<and> key r \<in> set ks \<and>
        enrolled r = card {i. i < length ks \<and> py_eq (ks ! i) (key r)} \<and>
        participated r =
          card {i. i < length ks \<and> py_eq (ks ! i) (key r) \<and>
                   to_numeric_cell L (origs ! i) \<noteq> NaN} \<and>
        passed r =
          card {i. i < length ks \<and> py_eq (ks ! i) (key r) \<and>
                   to_numeric_cell L (origs ! i) \<noteq> NaN \<and>
                   5 \<le> num_of (to_numeric_cell L (origs ! i))}) \<and>
     (\<forall>s. parse_numeric L s = None \<longrightarrow> to_numeric_cell L (StrV s) = NaN)"
proof -
  let ?gs = "to_numeric L origs"
  let ?groups = "sort_keys (uniques (filter notna ks))"
  let ?row = "\<lambda>k. \<lparr>key = k,
                    enrolled = length (members ks ?gs k),
                    participated = length (filter notna (members ks ?gs k)),
                    passed = length (filter ge5 (members ks ?gs k))\<rparr>"
  have len': "length ks = length ?gs" using len by simp
  have agg: "aggregate K df = Inr (map ?row ?groups)"
    by (rule aggregate_numeric[OF K T G no_str_to_numeric])
  have one: "length (filter (\<lambda>r. py_eq k (key r)) (map ?row ?groups)) = 1"
    if "k \<in> set ks" "k \<noteq> NaN" for k
  proof -
    have "length (filter (\<lambda>r. py_eq k (key r)) (map ?row ?groups)) =
          length (filter (py_eq k) ?groups)"
      by (simp add: filter_map comp_def)
    also have "\<dots> = length (filter (py_eq k) (uniques (filter notna ks)))"
      by (rule count_sort_keys)
    also have "\<dots> = 1"
      using that py_eq_refl[of k] by (auto simp: count_uniques notna_def)
    finally show ?thesis .
  qed
  have rows: "key r \<noteq> NaN \<and> key r \<in> set ks \<and>
        enrolled r = card {i. i < length ks \<and> py_eq (ks ! i) (key r)} \<and>
        participated r =
          card {i. i < length ks \<and> py_eq (ks ! i) (key r) \<and>
                   to_numeric_cell L (origs ! i) \<noteq> NaN} \<and>
        passed r =
          card {i. i < length ks \<and> py_eq (ks ! i) (key r) \<and>
                   to_numeric_cell L (origs ! i) \<noteq> NaN \<and>
                   5 \<le> num_of (to_numeric_cell L (origs ! i))}"
    if "r \<in> set (map ?row ?groups)" for r
  proof -
    from that obtain k where k: "k \<in> set (uniques (filter notna ks))" and r: "r = ?row k"
      by auto
    from k set_uniques_subset[of "filter notna ks"] have kk: "k \<in> set ks" "k \<noteq> NaN"
      by (auto simp: notna_def)
    have e: "enrolled r = card {i. i < length ks \<and> py_eq (ks ! i) k}"
      using r length_members_all[OF len', of k] by simp
    have "participated r = card {i. i < length ks \<and> py_eq (ks ! i) k \<and> notna (?gs ! i)}"
      using r length_members[OF len', of notna k] by simp
    also have "{i. i < length ks \<and> py_eq (ks ! i) k \<and> notna (?gs ! i)} =
               {i. i < length ks \<and> py_eq (ks ! i) k \<and> to_numeric_cell L (origs ! i) \<noteq> NaN}"
      using len by (auto simp: notna_to_numeric_nth)
    finally have p: "participated r =
        card {i. i < length ks \<and> py_eq (ks ! i) k \<and> to_numeric_cell L (origs ! i) \<noteq> NaN}" .
    have "passed r = card {i. i < length ks \<and> py_eq (ks ! i) k \<and> ge5 (?gs ! i)}"
      using r length_members[OF len', of ge5 k] by simp
    also have "{i. i < length ks \<and> py_eq (ks ! i) k \<and> ge5 (?gs ! i)} =
               {i. i < length ks \<and> py_eq (ks ! i) k \<and> to_numeric_cell L (origs ! i) \<noteq> NaN \<and>
                   5 \<le> num_of (to_numeric_cell L (origs ! i))}"
      using len by (auto simp: ge5_to_numeric_nth)
    finally have q: "passed r =
        card {i. i < length ks \<and> py_eq (ks ! i) k \<and> to_numeric_cell L (origs ! i) \<noteq> NaN \<and>
                 5 \<le> num_of (to_numeric_cell L (origs ! i))}" .
    from r have "key r = k" by simp
    with kk e p q show ?thesis by simp
  qed
  have coerce: "\<forall>s. parse_numeric L s = None \<longrightarrow> to_numeric_cell L (StrV s) = NaN"
    by simp
  from agg one rows coerce show ?thesis by blast
qed

lemma example_grades:
  "to_numeric example_services [IntV 7, StrV [913], IntV 5] = [FloatV 7, NaN, FloatV 5]"
  by (simp add: to_numeric_def upcast_def example_services_def parse_digits_def)

theorem aggregate_counts_witness:
  "aggregate TMIMA_COLUMN example_table =
     Inr [\<lparr>key = StrV (ascii ''Algebra''), enrolled = 2, participated = 1, passed = 1\<rparr>,
          \<lparr>key = StrV (ascii ''Logic''), enrolled = 1, participated = 1, passed = 1\<rparr>] \<and>
   column GRADE_COLUMN example_table =
     Inr (to_numeric example_services [IntV 7, StrV [913], IntV 5]) \<and>
   to_numeric_cell example_services (StrV [913]) = NaN"
proof -
  have K: "column TMIMA_COLUMN example_table =
     Inr [StrV (ascii ''Algebra''), StrV (ascii ''Algebra''), StrV (ascii ''Logic'')]"
    by (rule example_table_columns)
  have G: "column GRADE_COLUMN example_table =
     Inr (to_numeric example_services [IntV 7, StrV [913], IntV 5])"
    by (simp add: example_table_columns example_grades)
  have len: "length [StrV (ascii ''Algebra''), StrV (ascii ''Algebra''), StrV (ascii ''Logic'')] =
     length [IntV 7, StrV [913], IntV 5]" by simp
  from aggregate_counts [OF K K G len]
  have "\<forall>s. parse_numeric example_services s = None \<longrightarrow>
          to_numeric_cell example_services (StrV s) = NaN" by blast
  moreover have "parse_numeric example_services [913] = None"
    by (simp add: example_services_def parse_digits_def)
  ultimately have "to_numeric_cell example_services (StrV [913]) = NaN" by blast
  with G example_table_aggregate show ?thesis by simp
qed








lemma prefix3_text:
  "c \<noteq> NaN \<Longrightarrow> prefix3 L c = StrV (take 3 (py_str L c))"
  by (simp add: prefix3_def astype_str_def)








lemma read_one_fields:
  "dataframes (read_one L g f) = dataframes g @ (case accepted L f of None \<Rightarrow> [] | Some df \<Rightarrow> [df])"
  "error_occurred (read_one L g f) = (error_occurred g \<or> isl (read_excel L (snd f)))"
  "messages (read_one L g f) = messages g @ file_messages L f"
  by (auto simp: read_one_def accepted_def file_messages_def split: sum.splits)

lemma foldl_read_one:
  "dataframes (foldl (read_one L) g fs) = dataframes g @ accepted_frames L fs \<and>
   error_occurred (foldl (read_one L) g fs) =
     (error_occurred g \<or> (\<exists>f \<in> set fs. isl (read_excel L (snd f)))) \<and>
   messages (foldl (read_one L) g fs) = messages g @ concat (map (file_messages L) fs)"
proof (induction fs arbitrary: g)
  case Nil
  then show ?case by (simp add: accepted_frames_def map_filter_simps)
next
  case (Cons f fs)
  show ?case
    using Cons.IH[of "read_one L g f"]
    by (auto simp: read_one_fields accepted_frames_def map_filter_simps split: option.splits)
qed

lemma read_all_fields:
  "dataframes (read_all L fs) = accepted_frames L fs"
  "error_occurred (read_all L fs) = (\<exists>f \<in> set fs. isl (read_excel L (snd f)))"
  "messages (read_all L fs) = concat (map (file_messages L) fs)"
  using foldl_read_one[of L "\<lparr>dataframes = [], error_occurred = False, messages = []\<rparr>" fs]
  by (simp_all add: read_all_def)

lemma file_b_read:
  "read_excel example_services file_b =
     Inr frame_b"
  by (simp add: frame_b_def read_excel_def file_b_def example_services_def header_row_def title_row_def
      required_original_cols_def header_text_def cell_at_def upcast_def upt_rec [of 0]
      infer_column_def convertible_def parse_digits_def ascii_def)

lemma file_a_read:
  "read_excel example_services file_a =
     Inr frame_a"
  by (simp add: frame_a_def read_excel_def file_a_def example_services_def header_row_def title_row_def
      required_original_cols_def header_text_def cell_at_def upcast_def upt_rec [of 0]
      infer_column_def convertible_def parse_digits_def ascii_def)


lemma original_names_distinct:
  "distinct required_original_cols"
  by (simp add: required_original_cols_def column_names)

lemma file_b_accepted:
  "accepted example_services (n, file_b) =
     Some frame_b"
  by (simp add: frame_b_def accepted_def file_b_read has_required_def labels_def empty_df_def
      required_original_cols_def)

lemma file_a_accepted:
  "accepted example_services (n, file_a) =
     Some frame_a"
  by (simp add: frame_a_def accepted_def file_a_read has_required_def labels_def empty_df_def
      required_original_cols_def)

text \<open>
  Claim C7. When some uploaded file cannot be parsed, the run reports that file's
  error, still reads every other file (each leaves its own message, and the loop
  collects every acceptable table), and ends with the batch failed: nothing is merged,
  the store is untouched and the session holds neither a merged nor a processed table.
\<close>

theorem unreadable_file_fails_batch:
  assumes "(name, f) \<in> set uploaded_files"
    and "read_excel L f = Inl e"
    and "processed_df s = None"
  shows "process_uploads L uploaded_files s =
           s\<lparr>combined_df := None, processed_df := None,
             shown := shown s @ concat (map (file_messages L) uploaded_files) @ [ErrStopped]\<rparr> \<and>
         ErrFile name e \<in> set (concat (map (file_messages L) uploaded_files)) \<and>
         dataframes (read_all L uploaded_files) = accepted_frames L uploaded_files"
proof -
  from assms(1) have ne: "uploaded_files \<noteq> []" by auto
  from assms(1,2) have err: "error_occurred (read_all L uploaded_files)"
    by (force simp: read_all_fields)
  have "file_messages L (name, f) = [ErrFile name e]"
    using assms(2) by (simp add: file_messages_def)
  with assms(1) have msg: "ErrFile name e \<in> set (concat (map (file_messages L) uploaded_files))"
    by force
  have "process_uploads L uploaded_files s =
           s\<lparr>combined_df := None, processed_df := None,
             shown := shown s @ concat (map (file_messages L) uploaded_files) @ [ErrStopped]\<rparr>"
    using ne assms(3) err
    by (simp add: process_uploads_def combine_and_process_def Let_def say_def read_all_fields)
  with msg show ?thesis by (simp add: read_all_fields)
qed

theorem unreadable_file_fails_batch_witness:
  "process_uploads example_services
     [(ascii ''a.xlsx'', Unreadable), (ascii ''b.xlsx'', file_b)] new_session =
     new_session\<lparr>shown := [ErrFile (ascii ''a.xlsx'') FileReadError, ErrStopped]\<rparr> \<and>
   dataframes (read_all example_services
     [(ascii ''a.xlsx'', Unreadable), (ascii ''b.xlsx'', file_b)]) =
     [frame_b]"
proof -
  have m: "(ascii ''a.xlsx'', Unreadable) \<in>
          set [(ascii ''a.xlsx'', Unreadable), (ascii ''b.xlsx'', file_b)]" by simp
  have r: "read_excel example_services Unreadable = Inl FileReadError"
    by (simp add: read_excel_def)
  have p: "processed_df new_session = None" by (simp add: new_session_def)
  have fm: "file_messages example_services (ascii ''b.xlsx'', file_b) = []"
    by (simp add: frame_b_def file_messages_def file_b_read has_required_def labels_def
        empty_df_def required_original_cols_def)
  have fa: "file_messages example_services (ascii ''a.xlsx'', Unreadable) =
      [ErrFile (ascii ''a.xlsx'') FileReadError]"
    by (simp add: file_messages_def r)
  have acc: "accepted example_services (ascii ''a.xlsx'', Unreadable) = None"
    by (simp add: accepted_def r)
  from unreadable_file_fails_batch [OF m r p] show ?thesis
    by (simp add: fm fa acc accepted_frames_def map_filter_simps file_b_accepted new_session_def)
qed

lemma combine_and_process_shown:
  "\<exists>ms. shown (combine_and_process L g s) = shown s @ ms"
  by (simp add: combine_and_process_def Let_def say_def unexpected_def split: sum.splits)

lemma combine_and_process_cong:
  assumes "dataframes g = dataframes g'" "error_occurred g = error_occurred g'"
    and "store s = store s'" "combined_df s = combined_df s'"
  shows "store (combine_and_process L g s) = store (combine_and_process L g' s') \<and>
         combined_df (combine_and_process L g s) = combined_df (combine_and_process L g' s') \<and>
         processed_df (combine_and_process L g s) = processed_df (combine_and_process L g' s')"
  using assms
  by (simp add: combine_and_process_def Let_def say_def unexpected_def split: sum.splits)


lemma file_no_grade_read:
  "read_excel example_services file_no_grade = Inr frame_no_grade"
  by (simp add: frame_no_grade_def read_excel_def file_no_grade_def example_services_def
      title_row_def header_text_def cell_at_def upcast_def upt_rec [of 0]
      infer_column_def convertible_def parse_digits_def ascii_def)

lemma frame_no_grade_lacks_grade: "\<not> has_required frame_no_grade"
  by (simp add: frame_no_grade_def has_required_def labels_def required_original_cols_def
      column_names)

lemma frame_a_merged: "pd_concat [frame_a] = Inr frame_a"
  by (simp add: frame_a_def pd_concat_def labels_def union_labels_def column_or_nan_def
      upcast_def column_names)

lemma frame_a_renamed: "rename_columns frame_a = renamed_a"
  by (simp add: frame_a_def renamed_a_def rename_columns_def rename_label_def RENAME_DICT_def
      column_names)

lemma renamed_a_complete: "missing_cols renamed_a = []"
  by (simp add: renamed_a_def missing_cols_def labels_def FIXED_COLUMNS_def column_names)

lemma renamed_a_processed: "project_transform example_services renamed_a = Inr processed_a"
  by (simp add: project_transform_def select_columns_def FIXED_COLUMNS_def labels_def
      occurrences_def map_column_def renamed_a_def processed_a_def column_names
      prefix3_text dec_str_def digits.simps to_numeric_def upcast_def ascii_def
      example_services_def parse_digits_def)

lemma run_a:
  "dataframes g = [frame_a] \<Longrightarrow> \<not> error_occurred g \<Longrightarrow>
   combine_and_process example_services g s =
     s\<lparr>store := store s @ [renamed_a, processed_a],
       combined_df := Some (length (store s)),
       processed_df := Some (Suc (length (store s))),
       shown := shown s @ [SuccessMerged, SuccessRenamed, SuccessProcessed]\<rparr>"
  by (simp add: combine_and_process_def frame_a_merged frame_a_renamed renamed_a_complete
      renamed_a_processed Let_def say_def nth_append)

lemma accepted_frames_append:
  "accepted_frames L (xs @ ys) = accepted_frames L xs @ accepted_frames L ys"
  by (simp add: accepted_frames_def map_filter_def)

lemma accepted_frames_Cons:
  "accepted_frames L (x # xs) =
     (case accepted L x of None \<Rightarrow> [] | Some df \<Rightarrow> [df]) @ accepted_frames L xs"
  by (simp add: accepted_frames_def map_filter_simps split: option.splits)

text \<open>
  Claim C8. A file that is read but lacks one of the four required original columns
  draws one warning and nothing else: the loop collects the same tables and the same
  error flag as without that file, so the run over the remaining files stores the same
  merged and processed tables as if the file had not been uploaded.
\<close>

theorem skipped_file_not_fatal:
  assumes "read_excel L f = Inr df"
    and "\<not> has_required df"
    and "fs1 @ fs2 \<noteq> []"
    and "processed_df s = None"
  shows "file_messages L (name, f) = [WarnMissingOriginal name] \<and>
         WarnMissingOriginal name \<in> set (shown (process_uploads L (fs1 @ (name, f) # fs2) s)) \<and>
         dataframes (read_all L (fs1 @ (name, f) # fs2)) = dataframes (read_all L (fs1 @ fs2)) \<and>
         error_occurred (read_all L (fs1 @ (name, f) # fs2)) =
           error_occurred (read_all L (fs1 @ fs2)) \<and>
         store (process_uploads L (fs1 @ (name, f) # fs2) s) =
           store (process_uploads L (fs1 @ fs2) s) \<and>
         combined_df (process_uploads L (fs1 @ (name, f) # fs2) s) =
           combined_df (process_uploads L (fs1 @ fs2) s) \<and>
         processed_df (process_uploads L (fs1 @ (name, f) # fs2) s) =
           processed_df (process_uploads L (fs1 @ fs2) s)"
proof -
  let ?with = "fs1 @ (name, f) # fs2" and ?without = "fs1 @ fs2"
  have fm: "file_messages L (name, f) = [WarnMissingOriginal name]"
    using assms(1,2) by (simp add: file_messages_def)
  have acc: "accepted L (name, f) = None"
    using assms(1,2) by (simp add: accepted_def)
  have d: "dataframes (read_all L ?with) = dataframes (read_all L ?without)"
    by (simp add: read_all_fields accepted_frames_append accepted_frames_Cons acc)
  have e: "error_occurred (read_all L ?with) = error_occurred (read_all L ?without)"
    using assms(1) by (auto simp: read_all_fields)
  let ?s1 = "s\<lparr>combined_df := None, processed_df := None,
                shown := shown s @ messages (read_all L ?with)\<rparr>"
  let ?s2 = "s\<lparr>combined_df := None, processed_df := None,
                shown := shown s @ messages (read_all L ?without)\<rparr>"
  have p1: "process_uploads L ?with s = combine_and_process L (read_all L ?with) ?s1"
    using assms(4) by (simp add: process_uploads_def Let_def)
  have p2: "process_uploads L ?without s = combine_and_process L (read_all L ?without) ?s2"
    using assms(3,4) by (simp add: process_uploads_def Let_def)
  have "WarnMissingOriginal name \<in> set (shown ?s1)"
    by (simp add: read_all_fields fm)
  moreover obtain ms where "shown (combine_and_process L (read_all L ?with) ?s1) = shown ?s1 @ ms"
    using combine_and_process_shown by blast
  ultimately have w: "WarnMissingOriginal name \<in> set (shown (process_uploads L ?with s))"
    unfolding p1 by auto
  have c: "store (combine_and_process L (read_all L ?with) ?s1) =
             store (combine_and_process L (read_all L ?without) ?s2) \<and>
           combined_df (combine_and_process L (read_all L ?with) ?s1) =
             combined_df (combine_and_process L (read_all L ?without) ?s2) \<and>
           processed_df (combine_and_process L (read_all L ?with) ?s1) =
             processed_df (combine_and_process L (read_all L ?without) ?s2)"
    by (rule combine_and_process_cong[OF d e]) simp_all
  from fm w d e c show ?thesis unfolding p1 p2 by simp
qed

theorem skipped_file_not_fatal_witness:
  "read_excel example_services file_no_grade = Inr frame_no_grade \<and>
   \<not> has_required frame_no_grade \<and>
   process_uploads example_services
     [(ascii ''n.xlsx'', file_no_grade), (ascii ''a.xlsx'', file_a)] new_session =
     \<lparr>store = [renamed_a, processed_a], combined_df = Some 0, processed_df = Some 1,
      shown = [WarnMissingOriginal (ascii ''n.xlsx''), SuccessMerged, SuccessRenamed,
               SuccessProcessed]\<rparr> \<and>
   store (process_uploads example_services [(ascii ''a.xlsx'', file_a)] new_session) =
     [renamed_a, processed_a]"
proof -
  have ne: "[] @ [(ascii ''a.xlsx'', file_a)] \<noteq> []" by simp
  have p: "processed_df new_session = None" by (simp add: new_session_def)
  note t = skipped_file_not_fatal [OF file_no_grade_read frame_no_grade_lacks_grade ne p,
      of "ascii ''n.xlsx''"]
  have d: "dataframes (read_all example_services [(ascii ''a.xlsx'', file_a)]) = [frame_a]"
    by (simp add: read_all_fields accepted_frames_def map_filter_simps file_a_accepted)
  have e: "\<not> error_occurred (read_all example_services [(ascii ''a.xlsx'', file_a)])"
    by (simp add: read_all_fields file_a_read)
  have m: "messages (read_all example_services [(ascii ''a.xlsx'', file_a)]) = []"
    by (simp add: read_all_fields file_messages_def file_a_read frame_a_def has_required_def
        labels_def empty_df_def required_original_cols_def)
  have a: "process_uploads example_services [(ascii ''a.xlsx'', file_a)] new_session =
     \<lparr>store = [renamed_a, processed_a], combined_df = Some 0, processed_df = Some 1,
      shown = [SuccessMerged, SuccessRenamed, SuccessProcessed]\<rparr>"
    by (simp add: process_uploads_def Let_def run_a [OF d e] m new_session_def)
  from t have d': "dataframes (read_all example_services
       [(ascii ''n.xlsx'', file_no_grade), (ascii ''a.xlsx'', file_a)]) = [frame_a]"
    and e': "\<not> error_occurred (read_all example_services
       [(ascii ''n.xlsx'', file_no_grade), (ascii ''a.xlsx'', file_a)])"
    using d e by simp_all
  have m': "messages (read_all example_services
       [(ascii ''n.xlsx'', file_no_grade), (ascii ''a.xlsx'', file_a)]) =
       [WarnMissingOriginal (ascii ''n.xlsx'')]"
    using t m by (simp add: read_all_fields)
  have b: "process_uploads example_services
     [(ascii ''n.xlsx'', file_no_grade), (ascii ''a.xlsx'', file_a)] new_session =
     \<lparr>store = [renamed_a, processed_a], combined_df = Some 0, processed_df = Some 1,
      shown = [WarnMissingOriginal (ascii ''n.xlsx''), SuccessMerged, SuccessRenamed,
               SuccessProcessed]\<rparr>"
    by (simp add: process_uploads_def Let_def run_a [OF d' e'] m' new_session_def)
  from a b file_no_grade_read frame_no_grade_lacks_grade show ?thesis by simp
qed

lemma combine_and_process_success:
  assumes "processed_df (combine_and_process L g s) \<noteq> None" "processed_df s = None"
  shows "\<exists>merged processed.
           dataframes g \<noteq> [] \<and> \<not> error_occurred g \<and>
           pd_concat (dataframes g) = Inr merged \<and>
           missing_cols (rename_columns merged) = [] \<and>
           project_transform L (rename_columns merged) = Inr processed \<and>
           combine_and_process L g s =
             s\<lparr>store := store s @ [rename_columns merged, processed],
               combined_df := Some (length (store s)),
               processed_df := Some (Suc (length (store s))),
               shown := shown s @ [SuccessMerged, SuccessRenamed, SuccessProcessed]\<rparr>"
  using assms
  by (auto simp: combine_and_process_def Let_def say_def unexpected_def nth_append
      split: sum.splits if_splits)

lemma set_foldl_union_labels:
  "set (foldl union_labels acc lss) = set acc \<union> \<Union> (set ` set lss)"
  by (induction lss arbitrary: acc) (auto simp: union_labels_def)

lemma labels_pd_concat_list:
  "pd_concat dfs = Inr merged \<Longrightarrow> labels merged = foldl union_labels [] (map labels dfs)"
  by (auto simp: pd_concat_def labels_def [of merged] comp_def split: if_splits)

lemma labels_pd_concat:
  "pd_concat dfs = Inr merged \<Longrightarrow> set (labels merged) = \<Union> (set ` labels ` set dfs)"
  by (simp add: labels_pd_concat_list set_foldl_union_labels image_image)

lemma acceptedD:
  "accepted L f = Some df \<Longrightarrow>
   has_required df \<and> \<not> empty_df df \<and> read_excel L (snd f) = Inr df"
  by (auto simp: accepted_def split: sum.splits if_splits)

lemma accepted_framesD:
  "df \<in> set (accepted_frames L fs) \<Longrightarrow>
   has_required df \<and> \<not> empty_df df \<and> (\<exists>f \<in> set fs. read_excel L (snd f) = Inr df)"
proof (induction fs)
  case Nil
  then show ?case by (simp add: accepted_frames_def map_filter_simps)
next
  case (Cons f fs)
  then show ?case
    using acceptedD[of L f df] by (auto simp: accepted_frames_Cons split: option.splits)
qed

lemma rename_label_not_original: "rename_label l \<notin> fst ` set RENAME_DICT"
  by (simp add: rename_label_def RENAME_DICT_def column_names)

lemma labels_rename_columns: "labels (rename_columns df) = map rename_label (labels df)"
  by (simp add: rename_columns_def labels_def comp_def)

lemma originals_required: "fst ` set RENAME_DICT \<subseteq> set required_original_cols"
  by (simp add: RENAME_DICT_def required_original_cols_def)


lemma read_all_file_a:
  "dataframes (read_all example_services [(n, file_a)]) = [frame_a]"
  "\<not> error_occurred (read_all example_services [(n, file_a)])"
  "messages (read_all example_services [(n, file_a)]) = []"
  by (simp_all add: read_all_fields accepted_frames_Cons file_a_accepted file_a_read
      accepted_frames_def map_filter_simps file_messages_def frame_a_def has_required_def
      labels_def empty_df_def required_original_cols_def)

lemma process_file_a:
  "process_uploads example_services [(n, file_a)] new_session =
     \<lparr>store = [renamed_a, processed_a], combined_df = Some 0, processed_df = Some 1,
      shown = [SuccessMerged, SuccessRenamed, SuccessProcessed]\<rparr>"
  by (simp add: process_uploads_def Let_def run_a [OF read_all_file_a(1,2)] read_all_file_a(3)
      new_session_def)

text \<open>
  Claim C10. After a run that ends with a processed table, the table that the session
  holds as \<open>combined_df\<close> is the merged table under its new column names: the renaming
  of line 143 changes the very object stored at line 138. The run adds two objects to
  the store, that renamed table and the processed copy; the merged table had the three
  original names, the stored one has none of them, so no table with the original
  names is kept.
\<close>

theorem renaming_is_seen_in_session_table:
  assumes "uploaded_files \<noteq> []"
    and "processed_df s = None"
    and "processed_df (process_uploads L uploaded_files s) \<noteq> None"
  shows "\<exists>merged processed.
     pd_concat (dataframes (read_all L uploaded_files)) = Inr merged \<and>
     store (process_uploads L uploaded_files s) = store s @ [rename_columns merged, processed] \<and>
     combined_df (process_uploads L uploaded_files s) = Some (length (store s)) \<and>
     processed_df (process_uploads L uploaded_files s) = Some (Suc (length (store s))) \<and>
     store (process_uploads L uploaded_files s) ! length (store s) = rename_columns merged \<and>
     labels (rename_columns merged) = map rename_label (labels merged) \<and>
     (\<forall>l \<in> fst ` set RENAME_DICT.
        l \<in> set (labels merged) \<and> l \<notin> set (labels (rename_columns merged)))"
proof -
  let ?g = "read_all L uploaded_files"
  let ?s0 = "s\<lparr>combined_df := None, processed_df := None, shown := shown s @ messages ?g\<rparr>"
  have p: "process_uploads L uploaded_files s = combine_and_process L ?g ?s0"
    using assms(1,2) by (simp add: process_uploads_def Let_def)
  from assms(3) have "processed_df (combine_and_process L ?g ?s0) \<noteq> None"
    unfolding p .
  from combine_and_process_success[OF this] obtain merged processed where
    ne: "dataframes ?g \<noteq> []" and
    m: "pd_concat (dataframes ?g) = Inr merged" and
    r: "combine_and_process L ?g ?s0 =
          ?s0\<lparr>store := store ?s0 @ [rename_columns merged, processed],
               combined_df := Some (length (store ?s0)),
               processed_df := Some (Suc (length (store ?s0))),
               shown := shown ?s0 @ [SuccessMerged, SuccessRenamed, SuccessProcessed]\<rparr>"
    by auto
  from ne obtain df where df: "df \<in> set (accepted_frames L uploaded_files)"
    by (cases "dataframes ?g") (auto simp: read_all_fields)
  from accepted_framesD[OF df] have "has_required df" by simp
  then have "set required_original_cols \<subseteq> set (labels df)"
    by (auto simp: has_required_def list_all_iff)
  with df labels_pd_concat[OF m] have req: "set required_original_cols \<subseteq> set (labels merged)"
    by (auto simp: read_all_fields)
  have orig: "\<forall>l \<in> fst ` set RENAME_DICT.
        l \<in> set (labels merged) \<and> l \<notin> set (labels (rename_columns merged))"
  proof
    fix l assume l: "l \<in> fst ` set RENAME_DICT"
    with originals_required req have "l \<in> set (labels merged)" by blast
    moreover have "l \<notin> set (labels (rename_columns merged))"
    proof
      assume "l \<in> set (labels (rename_columns merged))"
      then obtain x where "l = rename_label x" by (auto simp: labels_rename_columns)
      with l rename_label_not_original[of x] show False by simp
    qed
    ultimately show "l \<in> set (labels merged) \<and> l \<notin> set (labels (rename_columns merged))" ..
  qed
  from m orig show ?thesis
    unfolding p r by (simp add: labels_rename_columns nth_append)
qed

theorem renaming_is_seen_in_session_table_witness:
  "process_uploads example_services [(ascii ''a.xlsx'', file_a)] new_session =
     \<lparr>store = [renamed_a, processed_a], combined_df = Some 0, processed_df = Some 1,
      shown = [SuccessMerged, SuccessRenamed, SuccessProcessed]\<rparr> \<and>
   pd_concat (dataframes (read_all example_services [(ascii ''a.xlsx'', file_a)])) = Inr frame_a \<and>
   rename_columns frame_a = renamed_a \<and>
   labels renamed_a = FIXED_COLUMNS \<and>
   labels frame_a = required_original_cols"
proof -
  have ne: "[(ascii ''a.xlsx'', file_a)] \<noteq> []" by simp
  have p: "processed_df new_session = None" by (simp add: new_session_def)
  have ok: "processed_df (process_uploads example_services [(ascii ''a.xlsx'', file_a)]
      new_session) \<noteq> None"
    by (simp add: process_file_a)
  from renaming_is_seen_in_session_table [OF ne p ok]
  obtain merged where
    "pd_concat (dataframes (read_all example_services [(ascii ''a.xlsx'', file_a)])) = Inr merged"
    "labels (rename_columns merged) = map rename_label (labels merged)"
    by blast
  then have "labels (rename_columns frame_a) = map rename_label (labels frame_a)"
    by (simp add: read_all_file_a frame_a_merged)
  moreover have "labels frame_a = required_original_cols"
    by (simp add: frame_a_def labels_def required_original_cols_def)
  moreover have "labels renamed_a = FIXED_COLUMNS"
    by (simp add: renamed_a_def labels_def FIXED_COLUMNS_def)
  ultimately show ?thesis
    by (simp add: process_file_a read_all_file_a frame_a_merged frame_a_renamed)
qed

lemma read_excel_wf: "read_excel L f = Inr df \<Longrightarrow> wf_frame df"
  by (auto simp: read_excel_def wf_frame_def list_all_iff split: upload.splits list.splits)

lemma has_required_columns: "has_required df \<Longrightarrow> columns df \<noteq> []"
  by (auto simp: has_required_def required_original_cols_def labels_def)

lemma length_after_header: "drop (Suc 0) g = h # b \<Longrightarrow> length b = length g - Suc (Suc 0)"
  by (cases g) auto

lemma accepted_nrows:
  assumes "accepted L f = Some df"
  shows "nrows df = data_records (snd f) - 1"
proof -
  from acceptedD[OF assms] have r: "read_excel L (snd f) = Inr df" and "has_required df"
    by simp_all
  then have "columns df \<noteq> []" by (simp add: has_required_columns)
  with r show ?thesis
    by (auto simp: read_excel_def data_records_def
        split: upload.splits list.splits dest: length_after_header)
qed

lemma sum_nrows_accepted:
  "sum_list (map nrows (accepted_frames L fs)) =
   (\<Sum>f\<leftarrow>filter (\<lambda>f. accepted L f \<noteq> None) fs. data_records (snd f) - 1)"
  by (induction fs) (auto simp: accepted_frames_Cons accepted_nrows accepted_frames_def
      map_filter_simps split: option.splits)

lemma nrows_pd_concat: "pd_concat dfs = Inr merged \<Longrightarrow> nrows merged = sum_list (map nrows dfs)"
  by (auto simp: pd_concat_def split: if_splits)

lemma columns_pd_concat:
  "pd_concat dfs = Inr merged \<Longrightarrow> c \<in> set (columns merged) \<Longrightarrow>
   snd c = upcast (concat (map (column_or_nan (fst c)) dfs))"
  by (auto simp: pd_concat_def split: if_splits)

lemma length_column_or_nan: "wf_frame df \<Longrightarrow> length (column_or_nan l df) = nrows df"
  by (auto simp: column_or_nan_def wf_frame_def list_all_iff split: option.splits
      dest!: map_of_SomeD)

lemma length_concat_columns:
  "\<forall>df \<in> set dfs. wf_frame df \<Longrightarrow>
   length (concat (map (column_or_nan l) dfs)) = sum_list (map nrows dfs)"
  by (induction dfs) (simp_all add: length_column_or_nan)


lemma frames_ab_merged: "pd_concat [frame_a, frame_b] = Inr merged_ab"
  by (simp add: frame_a_def frame_b_def merged_ab_def pd_concat_def labels_def
      union_labels_def column_or_nan_def upcast_def column_names)

lemma read_all_files_ab:
  "dataframes (read_all example_services [(n, file_a), (m, file_b)]) = [frame_a, frame_b]"
  by (simp add: read_all_fields accepted_frames_Cons file_a_accepted file_b_accepted
      accepted_frames_def map_filter_simps)

text \<open>
  Claim C5. The loop collects the tables of the accepted files in upload order. When
  they are merged, every column of the merged table is the files' columns one after
  the other in that order (missing where a file has no such column, and brought to the
  column's common dtype), so the order of files and of rows within a file is kept.
  The merged table has as many rows as the accepted files have rows below their
  header: for each accepted file, the rows below its discarded first row, minus the one
  that serves as the header.
\<close>

theorem merged_rows_in_upload_order:
  assumes "pd_concat (dataframes (read_all L uploaded_files)) = Inr merged"
  shows "dataframes (read_all L uploaded_files) = List.map_filter (accepted L) uploaded_files \<and>
     nrows merged =
       (\<Sum>f\<leftarrow>filter (\<lambda>f. accepted L f \<noteq> None) uploaded_files. data_records (snd f) - 1) \<and>
     (\<forall>c \<in> set (columns merged).
        snd c = upcast (concat (map (column_or_nan (fst c))
                   (List.map_filter (accepted L) uploaded_files))) \<and>
        length (snd c) = nrows merged)"
proof -
  let ?dfs = "accepted_frames L uploaded_files"
  have d: "dataframes (read_all L uploaded_files) = ?dfs" by (simp add: read_all_fields)
  from assms have m: "pd_concat ?dfs = Inr merged" by (simp add: d)
  have n: "nrows merged =
       (\<Sum>f\<leftarrow>filter (\<lambda>f. accepted L f \<noteq> None) uploaded_files. data_records (snd f) - 1)"
    using nrows_pd_concat[OF m] by (simp add: sum_nrows_accepted)
  have wf: "\<forall>df \<in> set ?dfs. wf_frame df"
    using accepted_framesD read_excel_wf by blast
  have c: "snd c = upcast (concat (map (column_or_nan (fst c)) ?dfs)) \<and>
           length (snd c) = nrows merged" if "c \<in> set (columns merged)" for c
    using columns_pd_concat[OF m that] length_concat_columns[OF wf] nrows_pd_concat[OF m]
    by simp
  from d n c show ?thesis unfolding accepted_frames_def by blast
qed

theorem merged_rows_in_upload_order_witness:
  "pd_concat (dataframes (read_all example_services
      [(ascii ''a.xlsx'', file_a), (ascii ''b.xlsx'', file_b)])) = Inr merged_ab \<and>
   nrows merged_ab = 4 \<and>
   data_records file_a - 1 = 2 \<and> data_records file_b - 1 = 2 \<and>
   List.map_filter (accepted example_services)
     [(ascii ''a.xlsx'', file_a), (ascii ''b.xlsx'', file_b)] = [frame_a, frame_b]"
proof -
  have m: "pd_concat (dataframes (read_all example_services
      [(ascii ''a.xlsx'', file_a), (ascii ''b.xlsx'', file_b)])) = Inr merged_ab"
    by (simp add: read_all_files_ab frames_ab_merged)
  from merged_rows_in_upload_order [OF m]
  have "dataframes (read_all example_services
      [(ascii ''a.xlsx'', file_a), (ascii ''b.xlsx'', file_b)]) =
      List.map_filter (accepted example_services)
        [(ascii ''a.xlsx'', file_a), (ascii ''b.xlsx'', file_b)]"
    by blast
  then have a: "List.map_filter (accepted example_services)
        [(ascii ''a.xlsx'', file_a), (ascii ''b.xlsx'', file_b)] = [frame_a, frame_b]"
    by (simp add: read_all_files_ab)
  have r: "data_records file_a - 1 = 2" "data_records file_b - 1 = 2"
    by (simp_all add: data_records_def file_a_def file_b_def)
  have n: "nrows merged_ab = 4" by (simp add: merged_ab_def)
  from m a r n show ?thesis by blast
qed

text \<open>
  The tables that the loop collects all have the four required columns, so the merged
  table has the four target columns after the renaming: from uploaded files the run
  never reports missing columns.
\<close>

lemma rename_required:
  "rename_label ` set required_original_cols = set FIXED_COLUMNS"
  by (simp add: rename_label_def RENAME_DICT_def required_original_cols_def FIXED_COLUMNS_def
      column_names)

theorem collected_tables_have_target_columns:
  assumes "pd_concat (dataframes (read_all L uploaded_files)) = Inr merged"
  shows "missing_cols (rename_columns merged) = []"
proof -
  from assms have "dataframes (read_all L uploaded_files) \<noteq> []"
    by (auto simp: pd_concat_def)
  then obtain df where df: "df \<in> set (accepted_frames L uploaded_files)"
    by (cases "dataframes (read_all L uploaded_files)") (auto simp: read_all_fields)
  from accepted_framesD[OF df] have "set required_original_cols \<subseteq> set (labels df)"
    by (auto simp: has_required_def list_all_iff)
  with df labels_pd_concat[OF assms] have "set required_original_cols \<subseteq> set (labels merged)"
    by (auto simp: read_all_fields)
  then have "rename_label ` set required_original_cols \<subseteq> set (labels (rename_columns merged))"
    by (auto simp: labels_rename_columns)
  then show ?thesis by (auto simp: rename_required missing_cols_def filter_empty_conv)
qed

theorem collected_tables_have_target_columns_witness:
  "pd_concat (dataframes (read_all example_services
      [(ascii ''a.xlsx'', file_a), (ascii ''b.xlsx'', file_b)])) = Inr merged_ab \<and>
   missing_cols (rename_columns merged_ab) = []"
proof -
  have m: "pd_concat (dataframes (read_all example_services
      [(ascii ''a.xlsx'', file_a), (ascii ''b.xlsx'', file_b)])) = Inr merged_ab"
    by (simp add: read_all_files_ab frames_ab_merged)
  from collected_tables_have_target_columns [OF m] m show ?thesis by simp
qed

lemma file_extra_period_read:
  "read_excel example_services file_extra_period = Inr frame_extra_period"
  by (simp add: frame_extra_period_def read_excel_def file_extra_period_def example_services_def
      header_row_def title_row_def required_original_cols_def header_text_def cell_at_def
      upcast_def upt_rec [of 0] column_names infer_column_def convertible_def parse_digits_def
      ascii_def)

lemma file_extra_period_accepted:
  "accepted example_services (n, file_extra_period) = Some frame_extra_period"
  "file_messages example_services (n, file_extra_period) = []"
  by (simp_all add: accepted_def file_messages_def file_extra_period_read frame_extra_period_def
      has_required_def labels_def empty_df_def required_original_cols_def)

lemma frame_extra_period_merged: "pd_concat [frame_extra_period] = Inr frame_extra_period"
  by (simp add: frame_extra_period_def pd_concat_def labels_def union_labels_def
      column_or_nan_def upcast_def column_names)

lemma frame_extra_period_renamed: "rename_columns frame_extra_period = renamed_extra_period"
  by (simp add: frame_extra_period_def renamed_extra_period_def rename_columns_def
      rename_label_def RENAME_DICT_def column_names)

lemma renamed_extra_period_complete: "missing_cols renamed_extra_period = []"
  by (simp add: renamed_extra_period_def missing_cols_def labels_def FIXED_COLUMNS_def
      column_names)

lemma renamed_extra_period_processed:
  "project_transform example_services renamed_extra_period = Inr processed_extra_period"
  by (simp add: project_transform_def select_columns_def FIXED_COLUMNS_def labels_def
      occurrences_def map_column_def renamed_extra_period_def processed_extra_period_def
      column_names prefix3_text dec_str_def digits.simps to_numeric_def upcast_def ascii_def)

text \<open>
  Claim C1 does not hold of the code for every upload. A sheet that has, next to the
  four required columns, a column already named as the period target column is read
  and accepted; the renaming then gives two columns that name, the selection of line
  158 takes both, and the run ends as a success with a processed table of five columns.
\<close>

theorem extra_target_column_gives_five_columns:
  "process_uploads example_services [(ascii ''x.xlsx'', file_extra_period)] new_session =
     \<lparr>store = [renamed_extra_period, processed_extra_period],
      combined_df = Some 0, processed_df = Some 1,
      shown = [SuccessMerged, SuccessRenamed, SuccessProcessed]\<rparr> \<and>
   labels processed_extra_period =
     [PERIODOS_COLUMN, PERIODOS_COLUMN, TMIMA_COLUMN, MITROO_COLUMN, GRADE_COLUMN] \<and>
   labels processed_extra_period \<noteq> FIXED_COLUMNS"
proof -
  let ?g = "read_all example_services [(ascii ''x.xlsx'', file_extra_period)]"
  have g: "dataframes ?g = [frame_extra_period]" "\<not> error_occurred ?g" "messages ?g = []"
    by (simp_all add: read_all_fields accepted_frames_Cons file_extra_period_accepted
        file_extra_period_read accepted_frames_def map_filter_simps)
  have "combine_and_process example_services ?g new_session =
     \<lparr>store = [renamed_extra_period, processed_extra_period],
      combined_df = Some 0, processed_df = Some 1,
      shown = [SuccessMerged, SuccessRenamed, SuccessProcessed]\<rparr>"
    by (simp add: combine_and_process_def g frame_extra_period_merged frame_extra_period_renamed
        renamed_extra_period_complete renamed_extra_period_processed Let_def say_def
        new_session_def)
  then have "process_uploads example_services [(ascii ''x.xlsx'', file_extra_period)] new_session =
     \<lparr>store = [renamed_extra_period, processed_extra_period],
      combined_df = Some 0, processed_df = Some 1,
      shown = [SuccessMerged, SuccessRenamed, SuccessProcessed]\<rparr>"
    by (simp add: process_uploads_def Let_def g new_session_def)
  moreover have "labels processed_extra_period =
     [PERIODOS_COLUMN, PERIODOS_COLUMN, TMIMA_COLUMN, MITROO_COLUMN, GRADE_COLUMN]"
    by (simp add: processed_extra_period_def labels_def)
  ultimately show ?thesis by (simp add: FIXED_COLUMNS_def)
qed


lemma labels_map_column [simp]: "labels (map_column l f df) = labels df"
  by (auto simp: labels_def map_column_def comp_def)

lemma map_fst_filter_label:
  "map fst (filter (\<lambda>c. fst c = k) cols) = filter (\<lambda>l. l = k) (map fst cols)"
  by (induction cols) auto

lemma labels_select_columns:
  "select_columns ks df = Inr sel \<Longrightarrow>
   labels sel = concat (map (\<lambda>k. filter (\<lambda>l. l = k) (labels df)) ks)"
  by (auto simp: select_columns_def labels_def map_concat comp_def map_fst_filter_label
      split: if_splits)

lemma filter_eq_distinct:
  "distinct xs \<Longrightarrow> k \<in> set xs \<Longrightarrow> filter (\<lambda>l. l = k) xs = [k]"
  by (induction xs) (auto simp: filter_empty_conv)

lemma labels_project_transform:
  assumes "project_transform L c = Inr p"
  shows "labels p = concat (map (\<lambda>k. filter (\<lambda>l. l = k) (labels c)) FIXED_COLUMNS) \<and>
         set FIXED_COLUMNS \<subseteq> set (labels c)"
proof -
  from assms obtain sel where sel: "select_columns FIXED_COLUMNS c = Inr sel"
    and p: "p = map_column GRADE_COLUMN (to_numeric L)
                  (map_column MITROO_COLUMN (map (prefix3 L)) sel)"
    by (auto simp: project_transform_def split: sum.splits if_splits)
  from sel have "set FIXED_COLUMNS \<subseteq> set (labels c)"
    by (auto simp: select_columns_def list_all_iff split: if_splits)
  with labels_select_columns[OF sel] p show ?thesis by simp
qed

lemma concat_singletons: "concat (map (\<lambda>k. [k]) ks) = ks"
  by (induction ks) auto

lemma labels_project_transform_distinct:
  assumes "project_transform L c = Inr p" "distinct (labels c)"
  shows "labels p = FIXED_COLUMNS"
proof -
  from labels_project_transform[OF assms(1)]
  have l: "labels p = concat (map (\<lambda>k. filter (\<lambda>l. l = k) (labels c)) FIXED_COLUMNS)"
    and s: "set FIXED_COLUMNS \<subseteq> set (labels c)" by simp_all
  have "map (\<lambda>k. filter (\<lambda>l. l = k) (labels c)) FIXED_COLUMNS = map (\<lambda>k. [k]) FIXED_COLUMNS"
    using s assms(2) by (intro map_cong) (auto simp: filter_eq_distinct)
  with l show ?thesis by (simp add: concat_singletons)
qed

lemma distinct_union_labels:
  "distinct acc \<Longrightarrow> distinct ls \<Longrightarrow> distinct (union_labels acc ls)"
  by (auto simp: union_labels_def)

lemma distinct_foldl_union_labels:
  "distinct acc \<Longrightarrow> \<forall>ls \<in> set lss. distinct ls \<Longrightarrow> distinct (foldl union_labels acc lss)"
  by (induction lss arbitrary: acc) (simp_all add: distinct_union_labels)

lemma distinct_labels_pd_concat: "pd_concat dfs = Inr merged \<Longrightarrow> distinct (labels merged)"
proof -
  assume m: "pd_concat dfs = Inr merged"
  then have "\<forall>ls \<in> set (map labels dfs). distinct ls"
    by (auto simp: pd_concat_def list_all_iff split: if_splits)
  then have "distinct (foldl union_labels [] (map labels dfs))"
    by (intro distinct_foldl_union_labels) simp_all
  with labels_pd_concat_list[OF m] show ?thesis by simp
qed

lemma rename_label_cases:
  "rename_label l = l \<or> rename_label l \<in> {PERIODOS_COLUMN, TMIMA_COLUMN, MITROO_COLUMN}"
  by (simp add: rename_label_def RENAME_DICT_def)

lemma rename_label_inj:
  assumes "rename_label a = rename_label b"
    and "a \<notin> {PERIODOS_COLUMN, TMIMA_COLUMN, MITROO_COLUMN}"
    and "b \<notin> {PERIODOS_COLUMN, TMIMA_COLUMN, MITROO_COLUMN}"
  shows "a = b"
  using assms
  by (simp add: rename_label_def RENAME_DICT_def column_names split: if_splits)


text \<open>
  What does hold of the columns: a run that ends with a processed table gives it
  exactly the four target columns in the fixed order, whatever other columns the
  sheets have, provided no accepted sheet already has a column named as one of the
  three renamed target columns.
\<close>

theorem processed_table_has_fixed_columns:
  assumes "uploaded_files \<noteq> []"
    and "processed_df s = None"
    and "processed_df (process_uploads L uploaded_files s) = Some r"
    and "\<forall>df \<in> set (List.map_filter (accepted L) uploaded_files).
           set (labels df) \<inter> {PERIODOS_COLUMN, TMIMA_COLUMN, MITROO_COLUMN} = {}"
  shows "labels (store (process_uploads L uploaded_files s) ! r) = FIXED_COLUMNS"
proof -
  let ?g = "read_all L uploaded_files"
  let ?s0 = "s\<lparr>combined_df := None, processed_df := None, shown := shown s @ messages ?g\<rparr>"
  have p: "process_uploads L uploaded_files s = combine_and_process L ?g ?s0"
    using assms(1,2) by (simp add: process_uploads_def Let_def)
  from assms(3) have "processed_df (combine_and_process L ?g ?s0) \<noteq> None"
    unfolding p by simp
  from combine_and_process_success[OF this] obtain merged processed where
    m: "pd_concat (dataframes ?g) = Inr merged" and
    t: "project_transform L (rename_columns merged) = Inr processed" and
    res: "combine_and_process L ?g ?s0 =
          ?s0\<lparr>store := store ?s0 @ [rename_columns merged, processed],
               combined_df := Some (length (store ?s0)),
               processed_df := Some (Suc (length (store ?s0))),
               shown := shown ?s0 @ [SuccessMerged, SuccessRenamed, SuccessProcessed]\<rparr>"
    by auto
  from assms(3) have r: "r = Suc (length (store s))"
    unfolding p res by simp
  have at: "store (process_uploads L uploaded_files s) ! r = processed"
    unfolding p res r by (simp add: nth_append)
  have new: "set (labels merged) \<inter> {PERIODOS_COLUMN, TMIMA_COLUMN, MITROO_COLUMN} = {}"
    using labels_pd_concat[OF m] assms(4)
    by (auto simp: read_all_fields accepted_frames_def)
  have "inj_on rename_label (set (labels merged))"
  proof (rule inj_onI)
    fix a b assume a: "a \<in> set (labels merged)" and b: "b \<in> set (labels merged)"
      and e: "rename_label a = rename_label b"
    from new a have a': "a \<notin> {PERIODOS_COLUMN, TMIMA_COLUMN, MITROO_COLUMN}" by blast
    from new b have b': "b \<notin> {PERIODOS_COLUMN, TMIMA_COLUMN, MITROO_COLUMN}" by blast
    from e a' b' show "a = b" by (rule rename_label_inj)
  qed
  with distinct_labels_pd_concat[OF m] have "distinct (labels (rename_columns merged))"
    by (simp add: labels_rename_columns distinct_map)
  from labels_project_transform_distinct[OF t this] at show ?thesis by simp
qed

theorem processed_table_has_fixed_columns_witness:
  "process_uploads example_services [(ascii ''a.xlsx'', file_a)] new_session =
     \<lparr>store = [renamed_a, processed_a], combined_df = Some 0, processed_df = Some 1,
      shown = [SuccessMerged, SuccessRenamed, SuccessProcessed]\<rparr> \<and>
   labels processed_a = FIXED_COLUMNS"
proof -
  have ne: "[(ascii ''a.xlsx'', file_a)] \<noteq> []" by simp
  have p: "processed_df new_session = None" by (simp add: new_session_def)
  have ok: "processed_df (process_uploads example_services [(ascii ''a.xlsx'', file_a)]
      new_session) = Some 1"
    by (simp add: process_file_a)
  have free: "\<forall>df \<in> set (List.map_filter (accepted example_services)
        [(ascii ''a.xlsx'', file_a)]).
      set (labels df) \<inter> {PERIODOS_COLUMN, TMIMA_COLUMN, MITROO_COLUMN} = {}"
    by (simp add: map_filter_simps file_a_accepted frame_a_def labels_def column_names)
  from processed_table_has_fixed_columns [OF ne p ok free]
  show ?thesis by (simp add: process_file_a)
qed

lemma uniques_cover:
  assumes "v \<in> set vs"
  shows "\<exists>u \<in> set (uniques vs). py_eq v u"
proof -
  have "length (filter (py_eq v) (uniques vs)) = 1"
    using assms py_eq_refl[of v] by (auto simp: count_uniques)
  then have "filter (py_eq v) (uniques vs) \<noteq> []" by auto
  then show ?thesis by (auto simp: filter_empty_conv)
qed

lemma py_sorted_set: "py_sorted xs = Inr ys \<Longrightarrow> set ys = set xs"
  by (auto simp: py_sorted_def split: if_splits)

lemma columnD:
  "column l df = Inr vs \<Longrightarrow> (l, vs) \<in> set (columns df)"
proof -
  assume c: "column l df = Inr vs"
  then obtain x where x: "filter (\<lambda>c. fst c = l) (columns df) = [x]" "snd x = vs"
    by (auto simp: column_def split: list.splits)
  then have "x \<in> set (filter (\<lambda>c. fst c = l) (columns df))" by simp
  then have "x \<in> set (columns df)" "fst x = l" by auto
  with x(2) show ?thesis by (cases x) auto
qed

lemma column_length: "wf_frame df \<Longrightarrow> column l df = Inr vs \<Longrightarrow> length vs = nrows df"
  by (auto simp: wf_frame_def list_all_iff dest!: columnD)

lemma keep_all: "map fst (filter snd (zip vs (replicate (length vs) True))) = vs"
  by (induction vs) auto

lemma boolean_index_all:
  assumes "wf_frame df"
  shows "boolean_index (replicate (nrows df) True) df = df"
proof -
  have "map (\<lambda>c. (fst c, map fst (filter snd (zip (snd c) (replicate (nrows df) True)))))
          (columns df) = columns df"
  proof (rule map_idI)
    fix c assume "c \<in> set (columns df)"
    with assms have "length (snd c) = nrows df" by (auto simp: wf_frame_def list_all_iff)
    then show "(fst c, map fst (filter snd (zip (snd c) (replicate (nrows df) True)))) = c"
      using keep_all[of "snd c"] by (cases c) auto
  qed
  then show ?thesis by (simp add: boolean_index_def)
qed


lemma isin_all:
  assumes wf: "wf_frame df" and c: "column l df = Inr vs"
    and all: "\<forall>v \<in> set vs. \<exists>u \<in> set selected. py_eq v u"
  shows "isin_filter l selected df = Inr df"
proof -
  have "map (\<lambda>v. list_ex (py_eq v) selected) vs = replicate (length vs) True"
    using all by (auto simp: list_ex_iff map_replicate_const [symmetric] intro!: map_cong)
  with column_length[OF wf c] boolean_index_all[OF wf] c show ?thesis
    by (simp add: isin_filter_def)
qed

lemma example_table_options:
  "periodos_options example_table = Inr [StrV (ascii ''2023-24''), StrV (ascii ''2024-25'')]"
  by (simp add: periodos_options_def example_table_columns py_eq_def py_sorted_def
      sort_keys_def cell_le_def ascii_def)

lemma example_table_wf: "wf_frame example_table" "\<not> empty_df example_table"
  by (simp_all add: wf_frame_def empty_df_def example_table_def)

text \<open>
  Claim C9. For a table with rows, when the period options can be offered and every
  one of them is ticked, the filter keeps the whole table, and step 1 shows exactly the
  summary by course of the unfiltered table (or fails exactly as that aggregation
  does).
\<close>

theorem all_periods_selected_is_unfiltered:
  assumes "wf_frame df" and "\<not> empty_df df"
    and "periodos_options df = Inr opts"
    and "\<forall>c \<in> set opts. checked c"
  shows "isin_filter PERIODOS_COLUMN (filter checked opts) df = Inr df \<and>
         level1 checked df =
           (case aggregate TMIMA_COLUMN df of
              Inl e \<Rightarrow> Inl e
            | Inr tmima_agg \<Rightarrow> Inr (Summary tmima_agg))"
proof -
  from assms(3) obtain vs where c: "column PERIODOS_COLUMN df = Inr vs"
    and s: "py_sorted (uniques vs) = Inr opts"
    by (auto simp: periodos_options_def split: sum.splits)
  have sel: "filter checked opts = opts" using assms(4) by simp
  have cover: "\<forall>v \<in> set vs. \<exists>u \<in> set opts. py_eq v u"
    using uniques_cover py_sorted_set[OF s] by auto
  have f: "isin_filter PERIODOS_COLUMN opts df = Inr df"
    by (rule isin_all[OF assms(1) c cover])
  from column_length[OF assms(1) c] assms(2) have "vs \<noteq> []"
    by (auto simp: empty_df_def)
  then obtain v where "v \<in> set vs" by (cases vs) auto
  with cover have "opts \<noteq> []" by auto
  with f assms(2,3) sel show ?thesis by (simp add: level1_def)
qed

theorem all_periods_selected_is_unfiltered_witness:
  "periodos_options example_table = Inr [StrV (ascii ''2023-24''), StrV (ascii ''2024-25'')] \<and>
   level1 (\<lambda>c. True) example_table =
     Inr (Summary
       [\<lparr>key = StrV (ascii ''Algebra''), enrolled = 2, participated = 1, passed = 1\<rparr>,
        \<lparr>key = StrV (ascii ''Logic''), enrolled = 1, participated = 1, passed = 1\<rparr>]) \<and>
   aggregate TMIMA_COLUMN example_table =
     Inr [\<lparr>key = StrV (ascii ''Algebra''), enrolled = 2, participated = 1, passed = 1\<rparr>,
          \<lparr>key = StrV (ascii ''Logic''), enrolled = 1, participated = 1, passed = 1\<rparr>]"
proof -
  have all: "\<forall>c \<in> set [StrV (ascii ''2023-24''), StrV (ascii ''2024-25'')]. (\<lambda>c. True) c" by simp
  from all_periods_selected_is_unfiltered
    [OF example_table_wf example_table_options, of "\<lambda>c. True", OF all]
  show ?thesis by (simp add: example_table_aggregate example_table_options)
qed

end
